theory Spec2Isabelle
  imports Complex_Main
begin

section \<open>JavaScript values used by script.js\<close>

text \<open>
  The dashboard client \<^verbatim>\<open>src/script.js\<close> is embedded as pure functions over an explicit
  browser state. Conventions of the embedding:

  \<^item> a JavaScript number is an exact rational (\<^typ>\<open>rat\<close>): every finite double is one,
    and \<^verbatim>\<open>Math.floor\<close>, \<^verbatim>\<open>toFixed\<close>, \<^verbatim>\<open>Math.min\<close> and the comparisons are
    defined by ECMAScript on the exact value. The rounding of the division
    \<^verbatim>\<open>sec/60\<close> to a double is not modelled, and whole numbers print in plain decimal
    notation, as they do below \<open>10^21\<close>. A number that a template string shows is kept
    as the number;
  \<^item> a JavaScript string is the \<^typ>\<open>string\<close> of its UTF-8 bytes, as for the check mark
    and the cross of the messages; \<^verbatim>\<open>trim\<close> strips every white space character of
    ECMAScript, case conversion is the ASCII one;
  \<^item> machine ids are strings, compared with \<^verbatim>\<open>===\<close>;
  \<^item> \<^verbatim>\<open>null\<close>/\<^verbatim>\<open>undefined\<close> is \<^const>\<open>None\<close>;
  \<^item> a thrown TypeError is a result value that carries the state reached before the throw,
    since the mutations made before it stay.
\<close>

subsection \<open>Strings\<close>

definition toLowerChar :: "char \<Rightarrow> char" where
  "toLowerChar c = (let n = of_char c :: nat in if 65 \<le> n \<and> n \<le> 90 then char_of (n + 32) else c)"

definition toUpperChar :: "char \<Rightarrow> char" where
  "toUpperChar c = (let n = of_char c :: nat in if 97 \<le> n \<and> n \<le> 122 then char_of (n - 32) else c)"

definition toLowerCase :: "string \<Rightarrow> string" where
  "toLowerCase s = map toLowerChar s"

definition toUpperCase :: "string \<Rightarrow> string" where
  "toUpperCase s = map toUpperChar s"

text \<open>
  \<^verbatim>\<open>String.prototype.trim\<close> strips the WhiteSpace and LineTerminator code points of
  ECMAScript from both ends: tab, line feed, vertical tab, form feed, carriage return,
  space, U+00A0, U+1680, U+2000 to U+200A, U+2028, U+2029, U+202F, U+205F, U+3000 and
  U+FEFF. \<open>white_space\<close> lists their UTF-8 encodings. Each encoding is a whole character
  that starts with its lead byte, so in a well-formed string a match at the front or at the
  end is that character.
\<close>

definition white_space :: "string list" where
  "white_space =
     [[CHR 0x09], [CHR 0x0A], [CHR 0x0B], [CHR 0x0C], [CHR 0x0D], [CHR 0x20],
      [CHR 0xC2, CHR 0xA0], [CHR 0xE1, CHR 0x9A, CHR 0x80],
      [CHR 0xE2, CHR 0x80, CHR 0x80], [CHR 0xE2, CHR 0x80, CHR 0x81],
      [CHR 0xE2, CHR 0x80, CHR 0x82], [CHR 0xE2, CHR 0x80, CHR 0x83],
      [CHR 0xE2, CHR 0x80, CHR 0x84], [CHR 0xE2, CHR 0x80, CHR 0x85],
      [CHR 0xE2, CHR 0x80, CHR 0x86], [CHR 0xE2, CHR 0x80, CHR 0x87],
      [CHR 0xE2, CHR 0x80, CHR 0x88], [CHR 0xE2, CHR 0x80, CHR 0x89],
      [CHR 0xE2, CHR 0x80, CHR 0x8A], [CHR 0xE2, CHR 0x80, CHR 0xA8],
      [CHR 0xE2, CHR 0x80, CHR 0xA9], [CHR 0xE2, CHR 0x80, CHR 0xAF],
      [CHR 0xE2, CHR 0x81, CHR 0x9F], [CHR 0xE3, CHR 0x80, CHR 0x80],
      [CHR 0xEF, CHR 0xBB, CHR 0xBF]]"

definition leading_space :: "string \<Rightarrow> string option" where
  "leading_space s = List.find (\<lambda>w. w \<noteq> [] \<and> take (length w) s = w) white_space"

definition trailing_space :: "string \<Rightarrow> string option" where
  "trailing_space s =
     List.find (\<lambda>w. w \<noteq> [] \<and> length w \<le> length s \<and> drop (length s - length w) s = w) white_space"

function trimStart :: "string \<Rightarrow> string" where
  "trimStart s =
     (case leading_space s of
        None \<Rightarrow> s
      | Some w \<Rightarrow> trimStart (drop (length w) s))"
  by pat_completeness auto
termination
proof (relation "measure length")
  show "wf (measure length)" by simp
next
  fix s w
  assume "leading_space s = Some w"
  then have "w \<noteq> []" and "take (length w) s = w"
    by (auto simp: leading_space_def find_Some_iff)
  then have "s \<noteq> []" by auto
  with \<open>w \<noteq> []\<close> show "(drop (length w) s, s) \<in> measure length" by simp
qed

function trimEnd :: "string \<Rightarrow> string" where
  "trimEnd s =
     (case trailing_space s of
        None \<Rightarrow> s
      | Some w \<Rightarrow> trimEnd (take (length s - length w) s))"
  by pat_completeness auto
termination
proof (relation "measure length")
  show "wf (measure length)" by simp
next
  fix s w
  assume "trailing_space s = Some w"
  then have "w \<noteq> []" and "length w \<le> length s"
    by (auto simp: trailing_space_def find_Some_iff)
  then show "(take (length s - length w) s, s) \<in> measure length" by (cases w) auto
qed

declare trimStart.simps [simp del] trimEnd.simps [simp del]

definition trim :: "string \<Rightarrow> string" where
  "trim s = trimEnd (trimStart s)"

text \<open>\<^verbatim>\<open>s.includes(sub)\<close>: \<open>sub\<close> occurs in \<open>s\<close> as a contiguous run.\<close>

fun includes_str :: "string \<Rightarrow> string \<Rightarrow> bool" where
  "includes_str [] sub = (sub = [])"
| "includes_str (c # cs) sub = (take (length sub) (c # cs) = sub \<or> includes_str cs sub)"

text \<open>Decimal digits of an integer, as template strings and \<^verbatim>\<open>toString\<close> print them.\<close>

definition digit :: "nat \<Rightarrow> char" where
  "digit d = ''0123456789'' ! d"

function string_of_nat :: "nat \<Rightarrow> string" where
  "string_of_nat n =
     (let units = digit (n mod 10)
      in if n < 10 then [units] else string_of_nat (n div 10) @ [units])"
  by pat_completeness auto
termination
  by (relation "measure id") auto

declare string_of_nat.simps [simp del]

definition string_of_int :: "int \<Rightarrow> string" where
  "string_of_int i =
     (if 0 \<le> i then string_of_nat (nat i) else CHR ''-'' # string_of_nat (nat \<bar>i\<bar>))"

text \<open>\<^verbatim>\<open>padStart(2,'0')\<close>\<close>

definition padStart2 :: "string \<Rightarrow> string" where
  "padStart2 s = replicate (2 - length s) (CHR ''0'') @ s"

definition check_mark :: string where
  "check_mark = [CHR 0xE2, CHR 0x9C, CHR 0x85]"

definition cross_mark :: string where
  "cross_mark = [CHR 0xE2, CHR 0x9D, CHR 0x8C]"

subsection \<open>Numbers\<close>

text \<open>The remainder operator \<^verbatim>\<open>%\<close> truncates the quotient towards zero.\<close>

definition js_trunc :: "rat \<Rightarrow> int" where
  "js_trunc x = (if x < 0 then \<lceil>x\<rceil> else \<lfloor>x\<rfloor>)"

definition js_rem :: "rat \<Rightarrow> rat \<Rightarrow> rat" where
  "js_rem a b = a - b * of_int (js_trunc (a / b))"

text \<open>
  \<^verbatim>\<open>x.toFixed(1)\<close> read back as a number: the multiple of one tenth nearest to \<open>x\<close>, the
  larger one on a tie, computed on the absolute value with the sign put back.
\<close>

definition toFixed1 :: "rat \<Rightarrow> rat" where
  "toFixed1 x =
     (if x < 0 then - (of_int \<lfloor>10 * (- x) + 1 / 2\<rfloor> / 10)
      else of_int \<lfloor>10 * x + 1 / 2\<rfloor> / 10)"

section \<open>Time formatter\<close>

text \<open>
  \<^verbatim>\<open>formatTime(sec)\<close>. The argument \<^const>\<open>None\<close> stands for the falsy non-numbers
  (\<^verbatim>\<open>null\<close>, \<^verbatim>\<open>undefined\<close>, \<^verbatim>\<open>NaN\<close>); \<^verbatim>\<open>!sec\<close> is also true of the number 0.
\<close>

definition formatTime :: "rat option \<Rightarrow> string" where
  "formatTime sec =
     (case sec of
        None \<Rightarrow> ''0:00''
      | Some x \<Rightarrow>
          if x = 0 \<or> x < 0 then ''0:00''
          else
            let m = \<lfloor>x / 60\<rfloor>;
                s = \<lfloor>js_rem x 60\<rfloor>
            in string_of_int m @ '':'' @ padStart2 (string_of_int s))"

text \<open>
  The reference definition in the words of the specification: \<open>0:00\<close> below zero, else
  \<open>floor(d/60)\<close>, a colon, and \<open>floor(d mod 60)\<close> on two digits, where \<open>d mod 60\<close> is the
  mathematical remainder \<open>d - 60 * floor(d/60)\<close>.
\<close>

definition formatTime_spec :: "rat \<Rightarrow> string" where
  "formatTime_spec d =
     (if d < 0 then ''0:00''
      else string_of_int \<lfloor>d / 60\<rfloor> @ '':'' @
           padStart2 (string_of_int \<lfloor>d - 60 * of_int \<lfloor>d / 60\<rfloor>\<rfloor>))"

section \<open>Data model\<close>

text \<open>
  The records of the backend payloads. Field names follow the JSON keys; \<open>id\<close>, \<open>name\<close>
  and \<open>size\<close> carry a prefix because HOL already uses these names. \<open>job\<close>,
  \<open>remaining_time\<close> and \<open>progress_percent\<close> may be absent or null.
\<close>

record job_rec =
  work_order :: string
  job_size :: string
  completed_qty :: rat
  total_qty :: rat
  remaining_time :: "rat option"
  progress_percent :: "rat option"

record next_job_rec =
  nj_work_order :: string
  nj_pipe_size :: string
  nj_produced_qty :: rat
  nj_total_qty :: rat
  nj_remaining_time :: "rat option"

record machine =
  m_id :: string
  m_name :: string
  status :: string
  job :: "job_rec option"
  next_job :: "next_job_rec option"

record location =
  l_name :: string
  machines :: "machine list"

text \<open>The \<^verbatim>\<open>new_job\<close> event of the push channel.\<close>

record job_event =
  machine_id :: string
  ev_work_order :: string
  qty :: rat
  pipe_size :: string
  eta :: "rat option"
  machine_name :: string

text \<open>
  A push message or a \<^verbatim>\<open>/dashboard\<close> response; any of its keys may be missing. The
  \<^verbatim>\<open>work_orders\<close> key only feeds the ERP table, which is not part of this model.
\<close>

record dashboard_data =
  locations :: "location list option"
  new_job :: "job_event option"

record user =
  username :: string
  password :: string
  u_location :: string
  role :: string

section \<open>The page\<close>

text \<open>
  The part of the document that the functions below read and write. The children of
  \<^verbatim>\<open>#locations\<close> are the location wrappers in document order, each with the cards of its
  grid. A card keeps what its template string shows, field by field, so names that contain
  markup are not re-parsed. The \<^verbatim>\<open>eta-\<close> span of a card is a node of its own: assigning
  \<^verbatim>\<open>innerHTML\<close> creates a fresh one, and a timer keeps a reference to the node it was
  given, whether or not the node is still in the document. \<open>node_text\<close> is the text of
  every such node, attached or detached.
\<close>

record card_job =
  cj_work_order :: string
  cj_size :: string
  cj_completed :: rat
  cj_total :: rat
  cj_eta :: nat
  cj_progress :: rat
  cj_color :: string

record card_content =
  c_name :: string
  c_edit :: bool
  c_location :: string
  c_mid :: string
  c_status :: string
  c_job :: "card_job option"
  c_controls :: bool

record card =
  card_id :: string
  card_class :: string
  content :: card_content

record wrap =
  w_name :: string
  w_cards :: "card list"

record alert =
  a_message :: string
  a_color :: string

text \<open>The closure of one \<^verbatim>\<open>setInterval\<close> callback: the captured \<open>id\<close>, \<open>el\<close> and \<open>t\<close>.\<close>

record timer =
  t_id :: string
  t_el :: "nat option"
  t_count :: rat

datatype js_error = TypeError

text \<open>
  The globals of the script and the page. \<open>timers\<close> holds the intervals that have been
  set and not cleared, by handle. \<open>alerts\<close> is the content of \<^verbatim>\<open>#alerts\<close>, newest
  first, or \<^const>\<open>None\<close> when the page has no such element; the removal of an alert after
  ten seconds is a later event and is not modelled. \<open>dialogs\<close> collects the blocking
  \<^verbatim>\<open>alert(...)\<close> boxes shown to the user. The three filter fields are the values of the
  filter controls, \<^const>\<open>None\<close> when the control is missing. The element
  \<^verbatim>\<open>#locations\<close> is taken to exist.
\<close>

record state =
  currentUser :: "user option"
  suppressNextWSRender :: bool
  dashboardCache :: dashboard_data
  renamedMachines :: "string \<rightharpoonup> string"
  etaIntervals :: "string \<rightharpoonup> nat"
  timers :: "nat \<rightharpoonup> timer"
  next_timer :: nat
  dom_locations :: "wrap list"
  node_text :: "nat \<Rightarrow> string"
  next_node :: nat
  alerts :: "alert list option"
  dialogs :: "string list"
  filter_location :: "string option"
  filter_status :: "string option"
  search_machine :: "string option"

type_synonym handler = "state \<Rightarrow> js_error option \<times> state"

subsection \<open>Document lookups\<close>

primrec find_index :: "('a \<Rightarrow> bool) \<Rightarrow> 'a list \<Rightarrow> nat option" where
  "find_index P [] = None"
| "find_index P (x # xs) = (if P x then Some 0 else map_option Suc (find_index P xs))"

text \<open>
  \<^verbatim>\<open>document.getElementById(`machine-${id}`)\<close>: the first card in document order with
  that id, as the position of its wrapper and its position in the grid.
\<close>

fun getCard :: "wrap list \<Rightarrow> string \<Rightarrow> (nat \<times> nat) option" where
  "getCard [] cid = None"
| "getCard (w # ws) cid =
     (case find_index (\<lambda>c. card_id c = cid) (w_cards w) of
        Some ci \<Rightarrow> Some (0, ci)
      | None \<Rightarrow> map_option (\<lambda>(wi, ci). (Suc wi, ci)) (getCard ws cid))"

definition all_cards :: "wrap list \<Rightarrow> card list" where
  "all_cards ws = concat (map w_cards ws)"

text \<open>
  \<^verbatim>\<open>document.getElementById(`eta-${id}`)\<close>: the span of the first card in document order
  that shows a job of machine \<open>id\<close>.
\<close>

definition getEta :: "wrap list \<Rightarrow> string \<Rightarrow> nat option" where
  "getEta ws mid =
     (case List.find (\<lambda>c. c_mid (content c) = mid \<and> c_job (content c) \<noteq> None) (all_cards ws) of
        None \<Rightarrow> None
      | Some c \<Rightarrow> map_option cj_eta (c_job (content c)))"

definition set_card_content :: "nat \<Rightarrow> nat \<Rightarrow> card_content \<Rightarrow> wrap list \<Rightarrow> wrap list" where
  "set_card_content wi ci html ws =
     ws[wi := (ws ! wi)\<lparr>w_cards := (w_cards (ws ! wi))[ci := (w_cards (ws ! wi) ! ci)\<lparr>content := html\<rparr>]\<rparr>]"

definition append_card :: "nat \<Rightarrow> card \<Rightarrow> wrap list \<Rightarrow> wrap list" where
  "append_card wi c ws = ws[wi := (ws ! wi)\<lparr>w_cards := w_cards (ws ! wi) @ [c]\<rparr>]"

section \<open>Alerts\<close>

definition createAlert :: "string \<Rightarrow> nat \<Rightarrow> state \<Rightarrow> state" where
  "createAlert message level st =
     (case alerts st of
        None \<Rightarrow> st
      | Some as \<Rightarrow>
          st\<lparr>alerts := Some (\<lparr>a_message = message,
                                a_color = (if level = 3 then ''#2196f3''
                                           else if level = 2 then ''#f44336'' else ''#ff9800'')\<rparr> # as)\<rparr>)"

text \<open>\<^verbatim>\<open>renamedMachines[id] || fallback\<close>: an empty overlay is falsy.\<close>

definition overlayName :: "(string \<rightharpoonup> string) \<Rightarrow> string \<Rightarrow> string \<Rightarrow> string" where
  "overlayName renamed mid fallback =
     (case renamed mid of None \<Rightarrow> fallback | Some n \<Rightarrow> if n = [] then fallback else n)"

section \<open>Countdown\<close>

definition clearInterval :: "nat option \<Rightarrow> state \<Rightarrow> state" where
  "clearInterval h st = (case h of None \<Rightarrow> st | Some k \<Rightarrow> st\<lparr>timers := (timers st)(k := None)\<rparr>)"

definition setupETACountdown :: "string \<Rightarrow> rat \<Rightarrow> state \<Rightarrow> state" where
  "setupETACountdown mid sec st =
     (let st1 = clearInterval (etaIntervals st mid) st
      in case getEta (dom_locations st1) mid of
           None \<Rightarrow> st1
         | Some el \<Rightarrow>
             let st2 = st1\<lparr>node_text := (node_text st1)(el := formatTime (Some sec))\<rparr>;
                 h = next_timer st2
             in st2\<lparr>timers := (timers st2)(h \<mapsto> \<lparr>t_id = mid, t_el = Some el, t_count = sec\<rparr>),
                    etaIntervals := (etaIntervals st2)(mid \<mapsto> h),
                    next_timer := Suc h\<rparr>)"

text \<open>
  One firing of the interval with handle \<open>h\<close>; a cleared interval does not fire. The
  callback tests its captured \<open>el\<close>, writes \<^verbatim>\<open>formatTime(t--)\<close> and clears
  \<^verbatim>\<open>etaIntervals[id]\<close> once \<open>t\<close> is negative.
\<close>

definition tick :: "nat \<Rightarrow> state \<Rightarrow> state" where
  "tick h st =
     (case timers st h of
        None \<Rightarrow> st
      | Some tm \<Rightarrow>
          (case t_el tm of
             None \<Rightarrow> clearInterval (etaIntervals st (t_id tm)) st
           | Some el \<Rightarrow>
               let st1 = st\<lparr>node_text := (node_text st)(el := formatTime (Some (t_count tm))),
                            timers := (timers st)(h \<mapsto> tm\<lparr>t_count := t_count tm - 1\<rparr>)\<rparr>
               in if t_count tm - 1 < 0 then clearInterval (etaIntervals st1 (t_id tm)) st1
                  else st1))"

section \<open>Rendering\<close>

definition remainingTimeText :: "machine \<Rightarrow> string" where
  "remainingTimeText machine =
     (case job machine of
        None \<Rightarrow> ''N/A''
      | Some j \<Rightarrow> (case remaining_time j of None \<Rightarrow> ''N/A'' | Some r \<Rightarrow> formatTime (Some r)))"

text \<open>\<^verbatim>\<open>Math.min(progress_percent.toFixed(1), 100)\<close>, or 0 without a progress value.\<close>

definition progressPercent :: "machine \<Rightarrow> rat" where
  "progressPercent machine =
     (case job machine of
        None \<Rightarrow> 0
      | Some j \<Rightarrow> (case progress_percent j of None \<Rightarrow> 0 | Some p \<Rightarrow> min (toFixed1 p) 100))"

definition barColor :: "rat \<Rightarrow> string" where
  "barColor p = (if p \<ge> 90 then ''red'' else if p \<ge> 75 then ''orange'' else ''green'')"

text \<open>The template string \<^verbatim>\<open>cardHTML\<close>, with the span of the remaining time as node \<open>node\<close>.\<close>

definition cardHTML :: "user \<Rightarrow> string \<Rightarrow> string \<Rightarrow> machine \<Rightarrow> nat \<Rightarrow> card_content" where
  "cardHTML u displayName location machine node =
     \<lparr>c_name = displayName,
      c_edit = (role u = ''admin''),
      c_location = location,
      c_mid = m_id machine,
      c_status = toUpperCase (status machine),
      c_job = (case job machine of
                 None \<Rightarrow> None
               | Some j \<Rightarrow>
                   Some \<lparr>cj_work_order = work_order j, cj_size = job_size j,
                         cj_completed = completed_qty j, cj_total = total_qty j,
                         cj_eta = node,
                         cj_progress = progressPercent machine,
                         cj_color = barColor (progressPercent machine)\<rparr>),
      c_controls = (role u = ''operator'')\<rparr>"

text \<open>
  \<^verbatim>\<open>createOrUpdateMachineCard(machine, location, parentGrid)\<close>; \<open>parentGrid\<close> is the position
  of the wrapper whose grid receives a new card. Reading \<^verbatim>\<open>currentUser.role\<close> throws when
  nobody is logged in, before anything is written.
\<close>

definition createOrUpdateMachineCard :: "machine \<Rightarrow> string \<Rightarrow> nat \<Rightarrow> handler" where
  "createOrUpdateMachineCard machine location parentGrid st =
     (let card = getCard (dom_locations st) (m_id machine);
          displayName = overlayName (renamedMachines st) (m_id machine) (m_name machine)
      in case currentUser st of
           None \<Rightarrow> (Some TypeError, st)
         | Some u \<Rightarrow>
             let node = next_node st;
                 html = cardHTML u displayName location machine node;
                 st1 = (case job machine of
                          None \<Rightarrow> st
                        | Some j \<Rightarrow> st\<lparr>node_text := (node_text st)(node := remainingTimeText machine),
                                        next_node := Suc node\<rparr>);
                 st2 = (case card of
                          Some (wi, ci) \<Rightarrow>
                            st1\<lparr>dom_locations := set_card_content wi ci html (dom_locations st1)\<rparr>
                        | None \<Rightarrow>
                            st1\<lparr>dom_locations :=
                                  append_card parentGrid
                                    \<lparr>card_id = m_id machine,
                                     card_class = ''machine status-'' @ status machine,
                                     content = html\<rparr>
                                    (dom_locations st1)\<rparr>)
             in (None,
                 case job machine of
                   None \<Rightarrow> st2
                 | Some j \<Rightarrow> (case remaining_time j of
                                None \<Rightarrow> st2
                              | Some r \<Rightarrow> setupETACountdown (m_id machine) r st2)))"

text \<open>\<^verbatim>\<open>forEach\<close> with a callback that may throw: the throw leaves the loop.\<close>

fun forEach :: "('a \<Rightarrow> handler) \<Rightarrow> 'a list \<Rightarrow> handler" where
  "forEach f [] st = (None, st)"
| "forEach f (x # xs) st =
     (case f x st of
        (None, st1) \<Rightarrow> forEach f xs st1
      | (Some e, st1) \<Rightarrow> (Some e, st1))"

definition renderLocation :: "string \<Rightarrow> machine list \<Rightarrow> handler" where
  "renderLocation location ms st =
     (let grid = length (dom_locations st);
          st1 = st\<lparr>dom_locations := dom_locations st @ [\<lparr>w_name = location, w_cards = []\<rparr>]\<rparr>
      in forEach (\<lambda>m. createOrUpdateMachineCard m location grid) ms st1)"

text \<open>The machines of one location that pass the status filter and the search text.\<close>

definition filterMachines :: "string \<Rightarrow> string \<Rightarrow> machine list \<Rightarrow> machine list" where
  "filterMachines statusFilter searchFilter ms =
     (let ms1 = (if statusFilter \<noteq> ''all'' then filter (\<lambda>m. status m = statusFilter) ms else ms)
      in if searchFilter \<noteq> []
         then filter (\<lambda>m. includes_str (toLowerCase (m_name m)) searchFilter \<or>
                          includes_str (toLowerCase (case job m of None \<Rightarrow> [] | Some j \<Rightarrow> work_order j))
                            searchFilter) ms1
         else ms1)"

text \<open>\<^verbatim>\<open>document.getElementById(...)?.value || "all"\<close>\<close>

definition selectValue :: "string option \<Rightarrow> string" where
  "selectValue v = (case v of None \<Rightarrow> ''all'' | Some x \<Rightarrow> if x = [] then ''all'' else x)"

definition searchValue :: "string option \<Rightarrow> string" where
  "searchValue v = (case v of None \<Rightarrow> [] | Some x \<Rightarrow> toLowerCase (trim x))"

text \<open>\<^verbatim>\<open>renderDashboard(data)\<close>; the argument is \<^verbatim>\<open>data?.locations\<close>.\<close>

definition renderDashboard :: "location list option \<Rightarrow> handler" where
  "renderDashboard data_locations st =
     (case currentUser st of
        None \<Rightarrow> (None, st)
      | Some u \<Rightarrow>
          let st1 = st\<lparr>dom_locations := []\<rparr>
          in case data_locations of
               None \<Rightarrow> (None, st1)
             | Some locs \<Rightarrow>
                 let visibleLocations =
                       (if u_location u = ''all'' then locs
                        else filter (\<lambda>l. l_name l = u_location u) locs);
                     locFilter = selectValue (filter_location st1);
                     statusFilter = selectValue (filter_status st1);
                     searchFilter = searchValue (search_machine st1);
                     visibleLocations2 =
                       (if locFilter \<noteq> ''all''
                        then filter (\<lambda>l. l_name l = locFilter) visibleLocations
                        else visibleLocations)
                 in forEach (\<lambda>loc. renderLocation (l_name loc)
                                      (filterMachines statusFilter searchFilter (machines loc)))
                      visibleLocations2 st1)"

section \<open>Alert engine\<close>

definition alertFor :: "machine \<Rightarrow> state \<Rightarrow> state" where
  "alertFor m st =
     (case job m of
        None \<Rightarrow> st
      | Some j \<Rightarrow>
          (case progress_percent j of
             None \<Rightarrow> st
           | Some p \<Rightarrow>
               let n = overlayName (renamedMachines st) (m_id m) (m_name m)
               in if p \<ge> 75 \<and> p < 90 then createAlert (n @ '' reached 75% progress!'') 1 st
                  else if p \<ge> 90 \<and> p < 100 then createAlert (n @ '' reached 90% progress!'') 2 st
                  else if p \<ge> 100 then createAlert (n @ '' completed!'') 3 st
                  else st))"

definition handleAlerts :: "dashboard_data \<Rightarrow> handler" where
  "handleAlerts data st =
     (case alerts st of
        None \<Rightarrow> (None, st)
      | Some as \<Rightarrow>
          let st1 = st\<lparr>alerts := Some []\<rparr>
          in case locations data of
               None \<Rightarrow> (Some TypeError, st1)
             | Some locs \<Rightarrow> (None, fold (\<lambda>loc. fold alertFor (machines loc)) locs st1))"

section \<open>New-job events\<close>

text \<open>The two assignments of \<^verbatim>\<open>handleNewJob\<close> to the machine it found.\<close>

definition assignJob :: "job_event \<Rightarrow> machine \<Rightarrow> machine" where
  "assignJob ev machine =
     (if job machine = None \<or> status machine = ''idle''
      then machine\<lparr>job := Some \<lparr>work_order = ev_work_order ev, job_size = pipe_size ev,
                                 completed_qty = 0, total_qty = qty ev,
                                 remaining_time = eta ev, progress_percent = Some 0\<rparr>\<rparr>
      else machine\<lparr>next_job := Some \<lparr>nj_work_order = ev_work_order ev, nj_pipe_size = pipe_size ev,
                                      nj_produced_qty = 0, nj_total_qty = qty ev,
                                      nj_remaining_time = eta ev\<rparr>\<rparr>)"

text \<open>Writing machine \<open>k\<close> of location \<open>i\<close> of the cached snapshot, in place.\<close>

definition set_machine :: "nat \<Rightarrow> nat \<Rightarrow> machine \<Rightarrow> location list \<Rightarrow> location list" where
  "set_machine i k m locs = locs[i := (locs ! i)\<lparr>machines := (machines (locs ! i))[k := m]\<rparr>]"

text \<open>
  The \<^verbatim>\<open>for (const loc of dashboardCache.locations)\<close> loop, on the locations still to
  visit and the position \<open>i\<close> of the first of them. It stops at the first location that
  has a machine with the id of the event.
\<close>

fun handleNewJob_loop :: "job_event \<Rightarrow> location list \<Rightarrow> nat \<Rightarrow> handler" where
  "handleNewJob_loop ev [] i st = (None, st)"
| "handleNewJob_loop ev (loc # rest) i st =
     (case find_index (\<lambda>m. m_id m = machine_id ev) (machines loc) of
        None \<Rightarrow> handleNewJob_loop ev rest (Suc i) st
      | Some k \<Rightarrow>
          let machine = assignJob ev (machines loc ! k);
              st1 = st\<lparr>dashboardCache := (dashboardCache st)
                         \<lparr>locations := map_option (set_machine i k machine)
                                          (locations (dashboardCache st))\<rparr>\<rparr>
          in case getCard (dom_locations st1) (machine_id ev) of
               None \<Rightarrow> (None, st1)
             | Some (grid, ci) \<Rightarrow> createOrUpdateMachineCard machine (l_name loc) grid st1)"

definition newJobMessage :: "state \<Rightarrow> job_event \<Rightarrow> string" where
  "newJobMessage st ev =
     check_mark @ '' New Job Assigned to '' @
     overlayName (renamedMachines st) (machine_id ev) (machine_name ev) @ '': '' @ ev_work_order ev"

text \<open>
  \<^verbatim>\<open>handleNewJob(job)\<close>. Iterating \<^verbatim>\<open>dashboardCache.locations\<close> throws when the cache has
  no \<^verbatim>\<open>locations\<close>. The alert after the loop is created whether or not a machine was found.
\<close>

definition handleNewJob :: "job_event \<Rightarrow> handler" where
  "handleNewJob ev st =
     (case locations (dashboardCache st) of
        None \<Rightarrow> (Some TypeError, st)
      | Some locs \<Rightarrow>
          (case handleNewJob_loop ev locs 0 st of
             (Some e, st1) \<Rightarrow> (Some e, st1)
           | (None, st1) \<Rightarrow> (None, createAlert (newJobMessage st1 ev) 0 st1)))"

section \<open>Realtime transport\<close>

text \<open>
  The body of the \<^verbatim>\<open>try\<close> block of \<^verbatim>\<open>socket.onmessage\<close> after the suppression test.
  \<^verbatim>\<open>data\<close> and \<^verbatim>\<open>dashboardCache\<close> are one object there, so what \<^verbatim>\<open>handleNewJob\<close> wrote
  is read back from the cache. \<^verbatim>\<open>updateMetricsModal\<close>, \<^verbatim>\<open>renderERPWorkOrders\<close> and
  \<^verbatim>\<open>loadProductionLogs\<close> write tables outside this model.
\<close>

definition onmessage_body :: handler where
  "onmessage_body st =
     (case (case new_job (dashboardCache st) of
              None \<Rightarrow> (None, st)
            | Some j \<Rightarrow> handleNewJob j st) of
        (Some e, st1) \<Rightarrow> (Some e, st1)
      | (None, st1) \<Rightarrow>
          (case (case locations (dashboardCache st1) of
                   None \<Rightarrow> (None, st1)
                 | Some locs \<Rightarrow> renderDashboard (Some locs) st1) of
             (Some e, st2) \<Rightarrow> (Some e, st2)
           | (None, st2) \<Rightarrow> handleAlerts (dashboardCache st2) st2))"

text \<open>
  \<^verbatim>\<open>socket.onmessage\<close>; the message is \<^const>\<open>None\<close> when \<^verbatim>\<open>JSON.parse\<close> throws. The
  parsed message replaces \<^verbatim>\<open>dashboardCache\<close> before anything else.
\<close>

definition onmessage :: "dashboard_data option \<Rightarrow> state \<Rightarrow> state" where
  "onmessage msg st =
     (case msg of
        None \<Rightarrow> createAlert ''WebSocket data error'' 2 st
      | Some data \<Rightarrow>
          let st1 = st\<lparr>dashboardCache := data\<rparr>
          in if suppressNextWSRender st1 then st1\<lparr>suppressNextWSRender := False\<rparr>
             else (case onmessage_body st1 of
                     (None, st2) \<Rightarrow> st2
                   | (Some e, st2) \<Rightarrow> createAlert ''WebSocket data error'' 2 st2))"

section \<open>Action dispatch\<close>

record action_response =
  ok :: bool
  res_machine :: "machine option"

definition showDialog :: "string \<Rightarrow> state \<Rightarrow> state" where
  "showDialog msg st = st\<lparr>dialogs := dialogs st @ [msg]\<rparr>"

text \<open>
  \<^verbatim>\<open>machineAction(e, action, location, id)\<close> from the arrival of the response on; the
  response is \<^const>\<open>None\<close> when the request or the decoding of its body fails.
\<close>

definition machineAction :: "string \<Rightarrow> string \<Rightarrow> string \<Rightarrow> action_response option \<Rightarrow> state \<Rightarrow> state" where
  "machineAction action location mid response st =
     (case response of
        None \<Rightarrow> showDialog (cross_mark @ '' '' @ action @ '' failed'') st
      | Some data \<Rightarrow>
          if \<not> ok data then showDialog (cross_mark @ '' '' @ action @ '' failed'') st
          else (case getCard (dom_locations st) mid of
                  None \<Rightarrow> st
                | Some (grid, ci) \<Rightarrow>
                    (case res_machine data of
                       None \<Rightarrow> st
                     | Some m \<Rightarrow>
                         (case createOrUpdateMachineCard m location grid st of
                            (None, st1) \<Rightarrow> st1
                          | (Some e, st1) \<Rightarrow>
                              showDialog (cross_mark @ '' '' @ action @ '' failed'') st1))))"

text \<open>
  \<^verbatim>\<open>editMachineName(e, location, machineId, oldName)\<close>: \<open>newName\<close> is what the prompt
  returned (\<^const>\<open>None\<close> on cancel) and \<open>response\<close> the \<open>ok\<close> flag of the backend
  (\<^const>\<open>None\<close> when the request fails). The text node in front of the edit button is
  rewritten when the heading starts with one.
\<close>

definition editMachineName :: "string \<Rightarrow> string \<Rightarrow> string \<Rightarrow> string option \<Rightarrow> bool option \<Rightarrow> state \<Rightarrow> state" where
  "editMachineName location machineId oldName newName response st =
     (case newName of
        None \<Rightarrow> st
      | Some nn \<Rightarrow>
          if nn = [] \<or> trim nn = oldName then st
          else (case response of
                  None \<Rightarrow> showDialog (cross_mark @ '' Rename error'') st
                | Some okay \<Rightarrow>
                    if \<not> okay then showDialog (cross_mark @ '' Rename failed'') st
                    else
                      let st1 = st\<lparr>renamedMachines := (renamedMachines st)(machineId \<mapsto> trim nn)\<rparr>
                      in case getCard (dom_locations st1) machineId of
                           None \<Rightarrow> createAlert (check_mark @ '' Machine renamed to '' @ nn) 0 st1
                         | Some (wi, ci) \<Rightarrow>
                             let c = content (w_cards (dom_locations st1 ! wi) ! ci)
                             in if c_name c = [] \<and> \<not> c_edit c
                                then showDialog (cross_mark @ '' Rename error'') st1
                                else createAlert (check_mark @ '' Machine renamed to '' @ nn) 0
                                       (if c_name c = [] then st1
                                        else st1\<lparr>dom_locations :=
                                               set_card_content wi ci (c\<lparr>c_name := nn @ '' ''\<rparr>)
                                                 (dom_locations st1)\<rparr>)))"

section \<open>Example page states\<close>

text \<open>
  The page right after the script has loaded, with \<^verbatim>\<open>#alerts\<close> and the three filter
  controls present and at their defaults, and the two kinds of user of the \<^verbatim>\<open>users\<close> table.
\<close>

definition init_state :: state where
  "init_state =
     \<lparr>currentUser = None, suppressNextWSRender = False,
      dashboardCache = \<lparr>locations = None, new_job = None\<rparr>,
      renamedMachines = Map.empty, etaIntervals = Map.empty, timers = Map.empty,
      next_timer = 0, dom_locations = [], node_text = (\<lambda>n. []), next_node = 0,
      alerts = Some [], dialogs = [],
      filter_location = Some ''all'', filter_status = Some ''all'', search_machine = Some []\<rparr>"

definition operator_modan :: user where
  "operator_modan = \<lparr>username = ''1111'', password = ''1111'', u_location = ''Modan'', role = ''operator''\<rparr>"

definition admin_all :: user where
  "admin_all = \<lparr>username = ''Admin'', password = ''12345'', u_location = ''all'', role = ''admin''\<rparr>"

definition machine_A1 :: machine where
  "machine_A1 = \<lparr>m_id = ''M1'', m_name = ''A1'', status = ''running'', job = None, next_job = None\<rparr>"

definition machine_B2 :: machine where
  "machine_B2 = \<lparr>m_id = ''M2'', m_name = ''B2'', status = ''idle'', job = None, next_job = None\<rparr>"

definition job_100s :: job_rec where
  "job_100s = \<lparr>work_order = ''WO-1'', job_size = ''20mm'', completed_qty = 5, total_qty = 10,
               remaining_time = Some 100, progress_percent = Some 50\<rparr>"

definition snapshot_modan :: "location list" where
  "snapshot_modan = [\<lparr>l_name = ''Modan'', machines = [machine_A1, machine_B2]\<rparr>]"

definition snapshot_busy :: "location list" where
  "snapshot_busy = [\<lparr>l_name = ''Modan'', machines = [machine_A1\<lparr>job := Some job_100s\<rparr>]\<rparr>]"

definition event_for :: "string \<Rightarrow> job_event" where
  "event_for mid = \<lparr>machine_id = mid, ev_work_order = ''WO-7'', qty = 10, pipe_size = ''20mm'',
                    eta = Some 60, machine_name = ''A1''\<rparr>"

text \<open>A session that has logged in and received one full snapshot over HTTP.\<close>

definition loaded :: "user \<Rightarrow> location list \<Rightarrow> state" where
  "loaded u locs =
     snd (renderDashboard (Some locs)
            (init_state\<lparr>currentUser := Some u,
                        dashboardCache := \<lparr>locations = Some locs, new_job = None\<rparr>\<rparr>))"

section \<open>Full snapshots\<close>

text \<open>
  The success path of \<^verbatim>\<open>loadDashboard\<close> from the arrival of a response with
  \<^verbatim>\<open>locations\<close> on: the response replaces the cache and is rendered. The metrics and ERP
  tables that it also fills are outside this model.
\<close>

definition replaceSnapshot :: "location list \<Rightarrow> state \<Rightarrow> state" where
  "replaceSnapshot locs st =
     snd (renderDashboard (Some locs) (st\<lparr>dashboardCache := \<lparr>locations = Some locs, new_job = None\<rparr>\<rparr>))"

text \<open>
  The two ways a full snapshot reaches the page: the HTTP response, and a push message
  that has \<^verbatim>\<open>locations\<close> (and possibly a \<^verbatim>\<open>new_job\<close> too).
\<close>

datatype snapshot_event = Http "location list" | Push dashboard_data

fun carries_snapshot :: "snapshot_event \<Rightarrow> bool" where
  "carries_snapshot (Http locs) = True"
| "carries_snapshot (Push data) = (locations data \<noteq> None)"

fun apply_snapshot :: "snapshot_event \<Rightarrow> state \<Rightarrow> state" where
  "apply_snapshot (Http locs) st = replaceSnapshot locs st"
| "apply_snapshot (Push data) st = onmessage (Some data) st"

text \<open>Every card of machine \<open>M\<close> in the document is headed by the name \<open>N\<close>.\<close>

definition overlay_shown :: "string \<Rightarrow> string \<Rightarrow> wrap list \<Rightarrow> bool" where
  "overlay_shown M N ws = list_all (\<lambda>c. card_id c = M \<longrightarrow> c_name (content c) = N) (all_cards ws)"

text \<open>
  A session in which somebody is logged in, machine \<open>M\<close> has the rename overlay \<open>N\<close> and no
  push message is to be skipped.
\<close>

definition overlay_session :: "string \<Rightarrow> string \<Rightarrow> state \<Rightarrow> bool" where
  "overlay_session M N st =
     (renamedMachines st M = Some N \<and> currentUser st \<noteq> None \<and> \<not> suppressNextWSRender st)"

section \<open>The time formatter meets its reference definition\<close>

lemma string_of_int_0: "string_of_int 0 = ''0''"
  by code_simp

lemma padStart2_0: "padStart2 ''0'' = ''00''"
  by code_simp

lemma js_rem_nonneg: "0 \<le> x \<Longrightarrow> js_rem x 60 = x - 60 * of_int \<lfloor>x / 60\<rfloor>"
  by (simp add: js_rem_def js_trunc_def)

lemma formatTime_lt_1: "x < 1 \<Longrightarrow> formatTime (Some x) = ''0:00''"
proof (cases "x \<le> 0")
  case True
  then show ?thesis by (auto simp: formatTime_def)
next
  case False
  assume "x < 1"
  with False have x: "0 < x" "x < 1" by auto
  then have f1: "\<lfloor>x / 60\<rfloor> = 0" by (simp add: floor_eq_iff)
  from x have f2: "\<lfloor>x\<rfloor> = 0" by (simp add: floor_eq_iff)
  from x show ?thesis
    by (simp add: formatTime_def js_rem_nonneg f1 f2 string_of_int_0 padStart2_0)
qed

text \<open>
  Claim C8. \<^const>\<open>formatTime\<close> equals the reference definition: the degenerate input and
  every negative duration give \<open>0:00\<close>, every duration \<open>d \<ge> 0\<close> gives \<open>floor(d/60)\<close>, a
  colon and \<open>floor(d mod 60)\<close> on two digits, and 125 gives \<open>2:05\<close>. The guard
  \<^verbatim>\<open>!sec\<close> sends 0 to \<open>0:00\<close>, which is also what the formula gives.
\<close>

theorem formatTime_refines_spec:
  "formatTime None = ''0:00'' \<and> formatTime (Some d) = formatTime_spec d \<and>
   formatTime (Some 125) = ''2:05''"
proof (intro conjI)
  show "formatTime None = ''0:00''" by (simp add: formatTime_def)
  show "formatTime (Some d) = formatTime_spec d"
  proof (cases "d \<le> 0")
    case True
    then show ?thesis
      by (cases "d = 0") (auto simp: formatTime_def formatTime_spec_def string_of_int_0 padStart2_0)
  next
    case False
    then show ?thesis
      by (simp add: formatTime_def formatTime_spec_def js_rem_nonneg Let_def)
  qed
  show "formatTime (Some 125) = ''2:05''" by code_simp
qed

section \<open>The countdown\<close>

lemma tick_inactive: "timers st h = None \<Longrightarrow> tick h st = st"
  by (simp add: tick_def)

lemma tick_active:
  "timers st h = Some \<lparr>t_id = mid, t_el = Some el, t_count = c\<rparr> \<Longrightarrow> etaIntervals st mid = Some h \<Longrightarrow>
   tick h st =
     st\<lparr>node_text := (node_text st)(el := formatTime (Some c)),
        timers := (if c - 1 < 0 then (timers st)(h := None)
                   else (timers st)(h \<mapsto> \<lparr>t_id = mid, t_el = Some el, t_count = c - 1\<rparr>))\<rparr>"
  by (simp add: tick_def clearInterval_def Let_def)

lemma setup_present:
  "getEta (dom_locations st) mid = Some el \<Longrightarrow>
   setupETACountdown mid s st =
     st\<lparr>node_text := (node_text st)(el := formatTime (Some s)),
        timers := (case etaIntervals st mid of None \<Rightarrow> timers st | Some k \<Rightarrow> (timers st)(k := None))
                    (next_timer st \<mapsto> \<lparr>t_id = mid, t_el = Some el, t_count = s\<rparr>),
        etaIntervals := (etaIntervals st)(mid \<mapsto> next_timer st),
        next_timer := Suc (next_timer st)\<rparr>"
  by (simp add: setupETACountdown_def clearInterval_def Let_def split: option.splits)

text \<open>
  The state after \<open>n + 1\<close> firings of a timer that nothing else disturbs: the counter has
  gone down by \<open>n + 1\<close> and the timer is still set exactly when the counter is not negative;
  the node shows the value of the counter before the last decrement.
\<close>

lemma countdown_invariant:
  assumes act: "timers st0 h = Some \<lparr>t_id = mid, t_el = Some el, t_count = s\<rparr>"
    and reg: "etaIntervals st0 mid = Some h"
  shows "(if 0 \<le> s - of_nat (Suc n)
          then timers ((tick h ^^ Suc n) st0) h = Some \<lparr>t_id = mid, t_el = Some el, t_count = s - of_nat (Suc n)\<rparr>
          else timers ((tick h ^^ Suc n) st0) h = None) \<and>
         etaIntervals ((tick h ^^ Suc n) st0) mid = Some h \<and>
         node_text ((tick h ^^ Suc n) st0) el = formatTime (Some (s - of_nat n))"
proof (induction n)
  case 0
  show ?case using act reg by (simp add: tick_active)
next
  case (Suc n)
  let ?st = "(tick h ^^ Suc n) st0"
  have step: "(tick h ^^ Suc (Suc n)) st0 = tick h ?st" by simp
  show ?case
  proof (cases "0 \<le> s - of_nat (Suc n)")
    case True
    with Suc have a: "timers ?st h = Some \<lparr>t_id = mid, t_el = Some el, t_count = s - of_nat (Suc n)\<rparr>"
      and r: "etaIntervals ?st mid = Some h" by auto
    show ?thesis unfolding step tick_active[OF a r] using r by (simp add: algebra_simps)
  next
    case False
    with Suc have a: "timers ?st h = None" and r: "etaIntervals ?st mid = Some h"
      and t: "node_text ?st el = formatTime (Some (s - of_nat n))" by auto
    from False have "s - of_nat n < 1" by simp
    then have "formatTime (Some (s - of_nat n)) = ''0:00''" by (rule formatTime_lt_1)
    moreover from False have "formatTime (Some (s - of_nat (Suc n))) = ''0:00''"
      by (intro formatTime_lt_1) simp
    ultimately show ?thesis unfolding step tick_inactive[OF a] using a r t False by simp
  qed
qed

text \<open>
  Claim C10. When the span of the remaining time is in the document,
  \<^verbatim>\<open>setupETACountdown(id, s)\<close> shows \<open>formatTime(s)\<close> at once and sets a timer. After
  \<open>n \<ge> 1\<close> undisturbed seconds the span shows \<open>formatTime(s - (n - 1))\<close>, so the first
  firing repeats \<open>formatTime(s)\<close>; the timer is still set exactly when its counter
  \<open>s - n\<close> is not negative, and once it has cleared itself the span shows \<open>0:00\<close>.
\<close>

theorem countdown_display:
  assumes el: "getEta (dom_locations st) mid = Some el"
  shows "node_text (setupETACountdown mid s st) el = formatTime (Some s) \<and>
         timers (setupETACountdown mid s st) (next_timer st) =
           Some \<lparr>t_id = mid, t_el = Some el, t_count = s\<rparr> \<and>
         (\<forall>n\<ge>1.
            node_text ((tick (next_timer st) ^^ n) (setupETACountdown mid s st)) el =
              formatTime (Some (s - of_nat (n - 1))) \<and>
            timers ((tick (next_timer st) ^^ n) (setupETACountdown mid s st)) (next_timer st) =
              (if 0 \<le> s - of_nat n
               then Some \<lparr>t_id = mid, t_el = Some el, t_count = s - of_nat n\<rparr> else None) \<and>
            (timers ((tick (next_timer st) ^^ n) (setupETACountdown mid s st)) (next_timer st) = None
               \<longrightarrow> node_text ((tick (next_timer st) ^^ n) (setupETACountdown mid s st)) el = ''0:00''))"
proof -
  let ?h = "next_timer st"
  let ?st0 = "setupETACountdown mid s st"
  have act: "timers ?st0 ?h = Some \<lparr>t_id = mid, t_el = Some el, t_count = s\<rparr>"
    and reg: "etaIntervals ?st0 mid = Some ?h"
    and shown: "node_text ?st0 el = formatTime (Some s)"
    by (simp_all add: setup_present[OF el])
  have ticks: "node_text ((tick ?h ^^ n) ?st0) el = formatTime (Some (s - of_nat (n - 1))) \<and>
            timers ((tick ?h ^^ n) ?st0) ?h =
              (if 0 \<le> s - of_nat n
               then Some \<lparr>t_id = mid, t_el = Some el, t_count = s - of_nat n\<rparr> else None) \<and>
            (timers ((tick ?h ^^ n) ?st0) ?h = None
               \<longrightarrow> node_text ((tick ?h ^^ n) ?st0) el = ''0:00'')" if "1 \<le> n" for n
  proof -
    from that obtain k where n: "n = Suc k" by (cases n) auto
    note inv = countdown_invariant[OF act reg, of k]
    have "s - of_nat (Suc k) < 0 \<Longrightarrow> formatTime (Some (s - of_nat k)) = ''0:00''"
      by (intro formatTime_lt_1) simp
    with inv show ?thesis unfolding n by (auto split: if_splits)
  qed
  from act shown ticks show ?thesis by blast
qed

text \<open>The theorem at a one-second countdown on the loaded example page.\<close>

theorem countdown_display_witness:
  "getEta (dom_locations (loaded operator_modan snapshot_busy)) ''M1'' = Some 0 \<and>
   node_text (setupETACountdown ''M1'' 1 (loaded operator_modan snapshot_busy)) 0 = ''0:01'' \<and>
   node_text ((tick 1 ^^ 1) (setupETACountdown ''M1'' 1 (loaded operator_modan snapshot_busy))) 0 = ''0:01'' \<and>
   node_text ((tick 1 ^^ 2) (setupETACountdown ''M1'' 1 (loaded operator_modan snapshot_busy))) 0 = ''0:00'' \<and>
   timers ((tick 1 ^^ 2) (setupETACountdown ''M1'' 1 (loaded operator_modan snapshot_busy))) 1 = None"
proof -
  let ?L = "loaded operator_modan snapshot_busy"
  have h: "getEta (dom_locations ?L) ''M1'' = Some 0" by code_simp
  have nt: "next_timer ?L = 1" by code_simp
  have f1: "formatTime (Some 1) = ''0:01''" by code_simp
  have f0: "formatTime (Some 0) = ''0:00''" by code_simp
  note inst = countdown_display[OF h, of 1, unfolded nt]
  from inst have a: "node_text (setupETACountdown ''M1'' 1 ?L) 0 = ''0:01''" by (simp add: f1)
  from inst have "node_text ((tick 1 ^^ 1) (setupETACountdown ''M1'' 1 ?L)) 0 = formatTime (Some (1 - of_nat (1 - 1)))"
    by blast
  then have b: "node_text ((tick 1 ^^ 1) (setupETACountdown ''M1'' 1 ?L)) 0 = ''0:01''" by (simp add: f1)
  from inst have "node_text ((tick 1 ^^ 2) (setupETACountdown ''M1'' 1 ?L)) 0 = formatTime (Some (1 - of_nat (2 - 1))) \<and>
     timers ((tick 1 ^^ 2) (setupETACountdown ''M1'' 1 ?L)) 1 = (if (0::rat) \<le> 1 - of_nat 2 then Some \<lparr>t_id = ''M1'', t_el = Some 0, t_count = 1 - of_nat 2\<rparr> else None)"
    by (metis one_le_numeral)
  then have c: "node_text ((tick 1 ^^ 2) (setupETACountdown ''M1'' 1 ?L)) 0 = ''0:00'' \<and>
     timers ((tick 1 ^^ 2) (setupETACountdown ''M1'' 1 ?L)) 1 = None" by (simp add: f0)
  from h a b c show ?thesis by blast
qed

text \<open>
  The callback never looks at the document: the card lists are carried through a firing
  untouched, and every timer that \<^const>\<open>setupETACountdown\<close> sets holds a node.
\<close>

lemma tick_ignores_document:
  "tick h (st\<lparr>dom_locations := ws\<rparr>) = (tick h st)\<lparr>dom_locations := ws\<rparr>"
  by (simp add: tick_def clearInterval_def Let_def split: option.splits)

text \<open>
  Claim C7, evaluated where it fails. A card with a 100 second countdown is on the page; the
  next snapshot has no machine, so \<^const>\<open>renderDashboard\<close> empties \<^verbatim>\<open>#locations\<close> and the
  span is no longer in the document. At the next firing the timer is still set: it has
  written \<open>1:40\<close> into the detached span and counts on from 99.
\<close>

theorem countdown_survives_card_removal:
  "getEta (dom_locations (loaded operator_modan snapshot_busy)) ''M1'' = Some 0 \<and>
   timers (loaded operator_modan snapshot_busy) 0 = Some \<lparr>t_id = ''M1'', t_el = Some 0, t_count = 100\<rparr> \<and>
   getEta (dom_locations (snd (renderDashboard (Some []) (loaded operator_modan snapshot_busy)))) ''M1'' = None \<and>
   timers (tick 0 (snd (renderDashboard (Some []) (loaded operator_modan snapshot_busy)))) 0 =
     Some \<lparr>t_id = ''M1'', t_el = Some 0, t_count = 99\<rparr> \<and>
   node_text (tick 0 (snd (renderDashboard (Some []) (loaded operator_modan snapshot_busy)))) 0 = ''1:40''"
  by (intro conjI; code_simp)

section \<open>New-job events: routing and unknown machines\<close>

lemma find_index_None: "find_index P xs = None \<longleftrightarrow> (\<forall>x\<in>set xs. \<not> P x)"
  by (induction xs) auto

lemma find_index_distinct:
  "distinct (map f xs) \<Longrightarrow> k < length xs \<Longrightarrow> find_index (\<lambda>x. f x = f (xs ! k)) xs = Some k"
proof (induction xs arbitrary: k)
  case Nil
  then show ?case by simp
next
  case (Cons x xs)
  show ?case
  proof (cases k)
    case 0
    then show ?thesis by simp
  next
    case (Suc j)
    with Cons.prems have j: "j < length xs" and d: "distinct (map f xs)" and nx: "f x \<notin> f ` set xs"
      by auto
    from j nx have "f x \<noteq> f (xs ! j)" by (metis imageI nth_mem)
    with Cons.IH[OF d j] Suc show ?thesis by simp
  qed
qed

lemma createOrUpdateMachineCard_cache:
  "dashboardCache (snd (createOrUpdateMachineCard m loc g st)) = dashboardCache st"
  by (simp add: createOrUpdateMachineCard_def setupETACountdown_def clearInterval_def Let_def
      split: option.splits prod.splits)

lemma handleNewJob_loop_no_match:
  "machine_id ev \<notin> set (map m_id (concat (map machines locs))) \<Longrightarrow>
   handleNewJob_loop ev locs i st = (None, st)"
proof (induction locs arbitrary: i)
  case Nil
  then show ?case by simp
next
  case (Cons loc rest)
  from Cons.prems have "\<forall>m\<in>set (machines loc). m_id m \<noteq> machine_id ev"
    by force
  then have "find_index (\<lambda>m. m_id m = machine_id ev) (machines loc) = None"
    by (simp add: find_index_None)
  moreover from Cons.prems have "machine_id ev \<notin> set (map m_id (concat (map machines rest)))"
    by auto
  ultimately show ?case using Cons.IH by simp
qed

lemma handleNewJob_loop_cache:
  assumes "locations (dashboardCache st) = Some every"
    and "j < length locs" and "k < length (machines (locs ! j))"
    and "m_id (machines (locs ! j) ! k) = machine_id ev"
    and "distinct (map m_id (concat (map machines locs)))"
  shows "locations (dashboardCache (snd (handleNewJob_loop ev locs i st))) =
           Some (set_machine (i + j) k (assignJob ev (machines (locs ! j) ! k)) every)"
  using assms
proof (induction locs arbitrary: i j)
  case Nil
  then show ?case by simp
next
  case (Cons loc rest)
  show ?case
  proof (cases j)
    case 0
    from Cons.prems have d: "distinct (map m_id (machines loc))" by simp
    from Cons.prems 0 have k: "k < length (machines loc)" and idk: "m_id (machines loc ! k) = machine_id ev"
      by auto
    from find_index_distinct[OF d k] idk
    have "find_index (\<lambda>m. m_id m = machine_id ev) (machines loc) = Some k" by simp
    with Cons.prems(1) 0 show ?thesis
      by (simp add: Let_def createOrUpdateMachineCard_cache split: option.splits prod.splits)
  next
    case (Suc j')
    with Cons.prems have j': "j' < length rest" and k: "k < length (machines (rest ! j'))"
      and idk: "m_id (machines (rest ! j') ! k) = machine_id ev"
      and d: "distinct (map m_id (concat (map machines rest)))"
      by auto
    from j' k have "machines (rest ! j') ! k \<in> set (concat (map machines rest))"
      by (metis (no_types, lifting) UN_I length_map nth_map nth_mem set_concat set_map)
    with idk have "machine_id ev \<in> m_id ` set (concat (map machines rest))" by force
    with Cons.prems(5) have "machine_id ev \<notin> m_id ` set (machines loc)" by auto
    then have "\<forall>m\<in>set (machines loc). m_id m \<noteq> machine_id ev" by force
    then have "find_index (\<lambda>m. m_id m = machine_id ev) (machines loc) = None"
      by (simp add: find_index_None)
    with Cons.IH[OF Cons.prems(1) j' k idk d, of "Suc i"] Suc show ?thesis by simp
  qed
qed

lemma createAlert_cache: "dashboardCache (createAlert msg lv st) = dashboardCache st"
  by (simp add: createAlert_def split: option.splits)

lemma handleNewJob_cache:
  "locations (dashboardCache st) = Some locs \<Longrightarrow>
   dashboardCache (snd (handleNewJob ev st)) = dashboardCache (snd (handleNewJob_loop ev locs 0 st))"
  by (simp add: handleNewJob_def createAlert_cache split: option.splits prod.splits)

lemma set_machine_nth:
  "li < length locs \<Longrightarrow> mi < length (machines (locs ! li)) \<Longrightarrow>
   machines (set_machine li mi m locs ! li) ! mi = m"
  by (simp add: set_machine_def)

text \<open>
  Claim C2. The snapshot holds machine \<open>mi\<close> of location \<open>li\<close> under the id of the
  event, and ids are unique within the snapshot. After \<^const>\<open>handleNewJob\<close> the cached
  snapshot differs from the old one at that machine only. If the machine had no job or was
  idle, the event is its current job, with completed quantity 0 and progress 0, and nothing
  else of the machine has changed; otherwise the event is its queued next job and the
  current job is the one it had. This holds whether or not the re-rendering of the card
  that follows throws.
\<close>

theorem handleNewJob_routing:
  assumes cache: "locations (dashboardCache st) = Some locs"
    and li: "li < length locs" and mi: "mi < length (machines (locs ! li))"
    and target: "m_id (machines (locs ! li) ! mi) = machine_id ev"
    and uniq: "distinct (map m_id (concat (map machines locs)))"
  shows "\<exists>locs'. locations (dashboardCache (snd (handleNewJob ev st))) = Some locs' \<and>
           locs' = set_machine li mi (machines (locs' ! li) ! mi) locs \<and>
           (job (machines (locs ! li) ! mi) = None \<or> status (machines (locs ! li) ! mi) = ''idle'' \<longrightarrow>
              machines (locs' ! li) ! mi =
                (machines (locs ! li) ! mi)
                  \<lparr>job := Some \<lparr>work_order = ev_work_order ev, job_size = pipe_size ev,
                                 completed_qty = 0, total_qty = qty ev,
                                 remaining_time = eta ev, progress_percent = Some 0\<rparr>\<rparr>) \<and>
           (job (machines (locs ! li) ! mi) \<noteq> None \<and> status (machines (locs ! li) ! mi) \<noteq> ''idle'' \<longrightarrow>
              job (machines (locs' ! li) ! mi) = job (machines (locs ! li) ! mi) \<and>
              machines (locs' ! li) ! mi =
                (machines (locs ! li) ! mi)
                  \<lparr>next_job := Some \<lparr>nj_work_order = ev_work_order ev, nj_pipe_size = pipe_size ev,
                                      nj_produced_qty = 0, nj_total_qty = qty ev,
                                      nj_remaining_time = eta ev\<rparr>\<rparr>)"
proof -
  let ?m = "machines (locs ! li) ! mi"
  let ?locs' = "set_machine li mi (assignJob ev ?m) locs"
  have res: "locations (dashboardCache (snd (handleNewJob ev st))) = Some ?locs'"
    using handleNewJob_loop_cache[OF cache li mi target uniq, of 0]
    by (simp add: handleNewJob_cache[OF cache])
  have at: "machines (?locs' ! li) ! mi = assignJob ev ?m"
    by (rule set_machine_nth[OF li mi])
  have frame: "?locs' = set_machine li mi (machines (?locs' ! li) ! mi) locs"
    by (simp only: at)
  have fresh: "machines (?locs' ! li) ! mi =
      ?m\<lparr>job := Some \<lparr>work_order = ev_work_order ev, job_size = pipe_size ev,
                         completed_qty = 0, total_qty = qty ev,
                         remaining_time = eta ev, progress_percent = Some 0\<rparr>\<rparr>"
    if "job ?m = None \<or> status ?m = ''idle''"
    unfolding at using that by (simp add: assignJob_def)
  have queued: "job (machines (?locs' ! li) ! mi) = job ?m \<and>
      machines (?locs' ! li) ! mi =
      ?m\<lparr>next_job := Some \<lparr>nj_work_order = ev_work_order ev, nj_pipe_size = pipe_size ev,
                              nj_produced_qty = 0, nj_total_qty = qty ev,
                              nj_remaining_time = eta ev\<rparr>\<rparr>"
    if "job ?m \<noteq> None \<and> status ?m \<noteq> ''idle''"
    unfolding at using that by (simp add: assignJob_def)
  from res frame fresh queued show ?thesis by blast
qed

text \<open>
  Claim C4 as amended. When no machine of the cached snapshot has the id of the event,
  \<^const>\<open>handleNewJob\<close> does not throw and leaves the snapshot, the cards and the timers as
  they were; its one effect is the alert that a new job was assigned, put in front of the
  alerts when the page has an alert area.
\<close>

theorem handleNewJob_unknown_machine:
  assumes cache: "locations (dashboardCache st) = Some locs"
    and unknown: "machine_id ev \<notin> set (map m_id (concat (map machines locs)))"
  shows "handleNewJob ev st =
           (None, st\<lparr>alerts := map_option (\<lambda>as. \<lparr>a_message = newJobMessage st ev, a_color = ''#ff9800''\<rparr> # as)
                                 (alerts st)\<rparr>)"
  using cache handleNewJob_loop_no_match[OF unknown, of 0 st]
  by (cases "alerts st") (simp_all add: handleNewJob_def createAlert_def)

text \<open>
  The routing on the example page: an event for the idle machine \<open>M2\<close> becomes its current
  job, an event for the running machine \<open>M1\<close> that has a job is queued behind it.
\<close>

theorem handleNewJob_routing_witness:
  "locations (dashboardCache (loaded operator_modan snapshot_modan)) = Some snapshot_modan \<and>
   m_id (machines (snapshot_modan ! 0) ! 1) = machine_id (event_for ''M2'') \<and>
   distinct (map m_id (concat (map machines snapshot_modan))) \<and>
   status (machines (snapshot_modan ! 0) ! 1) = ''idle'' \<and>
   (\<exists>locs'. locations (dashboardCache (snd (handleNewJob (event_for ''M2'')
                (loaded operator_modan snapshot_modan)))) = Some locs' \<and>
      job (machines (locs' ! 0) ! 1) =
        Some \<lparr>work_order = ''WO-7'', job_size = ''20mm'', completed_qty = 0, total_qty = 10,
              remaining_time = Some 60, progress_percent = Some 0\<rparr>) \<and>
   locations (dashboardCache (loaded operator_modan snapshot_busy)) = Some snapshot_busy \<and>
   m_id (machines (snapshot_busy ! 0) ! 0) = machine_id (event_for ''M1'') \<and>
   job (machines (snapshot_busy ! 0) ! 0) = Some job_100s \<and>
   status (machines (snapshot_busy ! 0) ! 0) = ''running'' \<and>
   (\<exists>locs'. locations (dashboardCache (snd (handleNewJob (event_for ''M1'')
                (loaded operator_modan snapshot_busy)))) = Some locs' \<and>
      job (machines (locs' ! 0) ! 0) = Some job_100s \<and>
      next_job (machines (locs' ! 0) ! 0) =
        Some \<lparr>nj_work_order = ''WO-7'', nj_pipe_size = ''20mm'', nj_produced_qty = 0,
              nj_total_qty = 10, nj_remaining_time = Some 60\<rparr>)"
proof -
  have c1: "locations (dashboardCache (loaded operator_modan snapshot_modan)) = Some snapshot_modan"
    by code_simp
  have l1: "0 < length snapshot_modan" by code_simp
  have m1: "1 < length (machines (snapshot_modan ! 0))" by code_simp
  have t1: "m_id (machines (snapshot_modan ! 0) ! 1) = machine_id (event_for ''M2'')" by code_simp
  have d1: "distinct (map m_id (concat (map machines snapshot_modan)))" by code_simp
  have s1: "status (machines (snapshot_modan ! 0) ! 1) = ''idle''" by code_simp
  have e1: "ev_work_order (event_for ''M2'') = ''WO-7'' \<and> pipe_size (event_for ''M2'') = ''20mm'' \<and>
            qty (event_for ''M2'') = 10 \<and> eta (event_for ''M2'') = Some 60"
    by (simp add: event_for_def)
  from handleNewJob_routing[OF c1 l1 m1 t1 d1] s1 e1
  have r1: "\<exists>locs'. locations (dashboardCache (snd (handleNewJob (event_for ''M2'')
                (loaded operator_modan snapshot_modan)))) = Some locs' \<and>
      job (machines (locs' ! 0) ! 1) =
        Some \<lparr>work_order = ''WO-7'', job_size = ''20mm'', completed_qty = 0, total_qty = 10,
              remaining_time = Some 60, progress_percent = Some 0\<rparr>"
    by auto
  have c2: "locations (dashboardCache (loaded operator_modan snapshot_busy)) = Some snapshot_busy"
    by code_simp
  have l2: "0 < length snapshot_busy" by code_simp
  have m2: "0 < length (machines (snapshot_busy ! 0))" by code_simp
  have t2: "m_id (machines (snapshot_busy ! 0) ! 0) = machine_id (event_for ''M1'')" by code_simp
  have d2: "distinct (map m_id (concat (map machines snapshot_busy)))" by code_simp
  have j2: "job (machines (snapshot_busy ! 0) ! 0) = Some job_100s" by code_simp
  have s2: "status (machines (snapshot_busy ! 0) ! 0) = ''running''" by code_simp
  have e2: "ev_work_order (event_for ''M1'') = ''WO-7'' \<and> pipe_size (event_for ''M1'') = ''20mm'' \<and>
            qty (event_for ''M1'') = 10 \<and> eta (event_for ''M1'') = Some 60"
    by (simp add: event_for_def)
  from handleNewJob_routing[OF c2 l2 m2 t2 d2] j2 s2 e2
  have r2: "\<exists>locs'. locations (dashboardCache (snd (handleNewJob (event_for ''M1'')
                (loaded operator_modan snapshot_busy)))) = Some locs' \<and>
      job (machines (locs' ! 0) ! 0) = Some job_100s \<and>
      next_job (machines (locs' ! 0) ! 0) =
        Some \<lparr>nj_work_order = ''WO-7'', nj_pipe_size = ''20mm'', nj_produced_qty = 0,
              nj_total_qty = 10, nj_remaining_time = Some 60\<rparr>"
    by auto
  from c1 t1 d1 s1 r1 c2 t2 j2 s2 r2 show ?thesis by blast
qed

text \<open>An event for the unknown id \<open>M9\<close> on the example page.\<close>

theorem handleNewJob_unknown_machine_witness:
  "locations (dashboardCache (loaded operator_modan snapshot_modan)) = Some snapshot_modan \<and>
   machine_id (event_for ''M9'') \<notin> set (map m_id (concat (map machines snapshot_modan))) \<and>
   fst (handleNewJob (event_for ''M9'') (loaded operator_modan snapshot_modan)) = None \<and>
   dashboardCache (snd (handleNewJob (event_for ''M9'') (loaded operator_modan snapshot_modan))) =
     dashboardCache (loaded operator_modan snapshot_modan) \<and>
   dom_locations (snd (handleNewJob (event_for ''M9'') (loaded operator_modan snapshot_modan))) =
     dom_locations (loaded operator_modan snapshot_modan)"
proof -
  have c: "locations (dashboardCache (loaded operator_modan snapshot_modan)) = Some snapshot_modan"
    by code_simp
  have u: "machine_id (event_for ''M9'') \<notin> set (map m_id (concat (map machines snapshot_modan)))"
    by code_simp
  from handleNewJob_unknown_machine[OF c u] c u show ?thesis by simp
qed

text \<open>
  Claim C4 as stated fails: the same event for the unknown id \<open>M9\<close> puts an alert node
  into the empty alert area, telling the user that a new job was assigned.
\<close>

theorem handleNewJob_unknown_machine_alerts:
  "locations (dashboardCache (loaded operator_modan snapshot_modan)) = Some snapshot_modan \<and>
   machine_id (event_for ''M9'') \<notin> set (map m_id (concat (map machines snapshot_modan))) \<and>
   alerts (loaded operator_modan snapshot_modan) = Some [] \<and>
   alerts (snd (handleNewJob (event_for ''M9'') (loaded operator_modan snapshot_modan))) =
     Some [\<lparr>a_message = check_mark @ '' New Job Assigned to A1: WO-7'', a_color = ''#ff9800''\<rparr>]"
  by (intro conjI; code_simp)

text \<open>
  Inside \<^verbatim>\<open>socket.onmessage\<close> the alert does not last: when the message also carries
  \<^verbatim>\<open>locations\<close>, the call of \<^const>\<open>handleAlerts\<close> at the end of the handler empties the alert
  area again, for a known machine as for an unknown one.
\<close>

lemma onmessage_clears_new_job_alert:
  "alerts (onmessage (Some \<lparr>locations = Some snapshot_modan, new_job = Some (event_for ''M9'')\<rparr>)
             (loaded operator_modan snapshot_modan)) = Some [] \<and>
   alerts (onmessage (Some \<lparr>locations = Some snapshot_modan, new_job = Some (event_for ''M2'')\<rparr>)
             (loaded operator_modan snapshot_modan)) = Some []"
  by (intro conjI; code_simp)

section \<open>Push messages without a snapshot\<close>

text \<open>
  Whatever the page knew before, a message with a \<^verbatim>\<open>new_job\<close> and no \<^verbatim>\<open>locations\<close>
  first replaces the cache, so \<^const>\<open>handleNewJob\<close> finds no list to iterate and throws; the
  handler ends in its \<^verbatim>\<open>catch\<close> with the cache holding the message alone.
\<close>

lemma onmessage_without_locations:
  "onmessage (Some \<lparr>locations = None, new_job = Some ev\<rparr>) (st\<lparr>suppressNextWSRender := False\<rparr>) =
     createAlert ''WebSocket data error'' 2
       (st\<lparr>suppressNextWSRender := False, dashboardCache := \<lparr>locations = None, new_job = Some ev\<rparr>\<rparr>)"
  by (simp add: onmessage_def onmessage_body_def handleNewJob_def Let_def)

text \<open>
  Claim C1, evaluated where it fails. The page holds the snapshot of Modan with machines
  \<open>M1\<close> and \<open>M2\<close>; a push message carries a new job for \<open>M2\<close> and no \<^verbatim>\<open>locations\<close>.
  Afterwards the cache is the message itself, without any location or machine, the job was
  assigned to nothing, and the user sees \<open>WebSocket data error\<close>.
\<close>

theorem onmessage_new_job_drops_snapshot:
  "locations (dashboardCache (loaded operator_modan snapshot_modan)) = Some snapshot_modan \<and>
   suppressNextWSRender (loaded operator_modan snapshot_modan) = False \<and>
   dashboardCache (onmessage (Some \<lparr>locations = None, new_job = Some (event_for ''M2'')\<rparr>)
                     (loaded operator_modan snapshot_modan)) =
     \<lparr>locations = None, new_job = Some (event_for ''M2'')\<rparr> \<and>
   alerts (onmessage (Some \<lparr>locations = None, new_job = Some (event_for ''M2'')\<rparr>)
             (loaded operator_modan snapshot_modan)) =
     Some [\<lparr>a_message = ''WebSocket data error'', a_color = ''#f44336''\<rparr>]"
  by (intro conjI; code_simp)

section \<open>Action dispatch leaves the snapshot alone\<close>

lemma find_index_Some: "find_index P xs = Some k \<Longrightarrow> k < length xs \<and> P (xs ! k)"
proof (induction xs arbitrary: k)
  case Nil
  then show ?case by simp
next
  case (Cons x xs)
  then show ?case by (cases k) (auto split: if_splits)
qed

lemma getCard_Some:
  "getCard ws cid = Some (wi, ci) \<Longrightarrow>
   wi < length ws \<and> ci < length (w_cards (ws ! wi)) \<and> card_id (w_cards (ws ! wi) ! ci) = cid"
proof (induction ws arbitrary: wi)
  case Nil
  then show ?case by simp
next
  case (Cons w ws)
  show ?case
  proof (cases "find_index (\<lambda>c. card_id c = cid) (w_cards w)")
    case None
    with Cons.prems obtain wj where "getCard ws cid = Some (wj, ci)" and "wi = Suc wj"
      by (auto split: option.splits)
    with Cons.IH show ?thesis by simp
  next
    case (Some k)
    with Cons.prems have "wi = 0" "ci = k" by auto
    with find_index_Some[OF Some] show ?thesis by simp
  qed
qed

lemma setupETACountdown_frame:
  "dom_locations (setupETACountdown mid s st) = dom_locations st \<and>
   dialogs (setupETACountdown mid s st) = dialogs st \<and>
   alerts (setupETACountdown mid s st) = alerts st \<and>
   renamedMachines (setupETACountdown mid s st) = renamedMachines st \<and>
   currentUser (setupETACountdown mid s st) = currentUser st"
  by (simp add: setupETACountdown_def clearInterval_def Let_def split: option.splits)

lemma createOrUpdateMachineCard_existing:
  assumes "currentUser st = Some u" and "getCard (dom_locations st) (m_id m) = Some (wi, ci)"
  shows "fst (createOrUpdateMachineCard m loc g st) = None \<and>
         dom_locations (snd (createOrUpdateMachineCard m loc g st)) =
           set_card_content wi ci
             (cardHTML u (overlayName (renamedMachines st) (m_id m) (m_name m)) loc m (next_node st))
             (dom_locations st) \<and>
         dialogs (snd (createOrUpdateMachineCard m loc g st)) = dialogs st"
  using assms
  by (simp add: createOrUpdateMachineCard_def Let_def setupETACountdown_frame split: option.splits)

lemma map_update_same: "(map f xs)[i := f (xs ! i)] = map f xs"
  by (metis list_update_id map_update)

lemma set_card_content_ids:
  "map (\<lambda>w. (w_name w, map card_id (w_cards w))) (set_card_content wi ci html ws) =
   map (\<lambda>w. (w_name w, map card_id (w_cards w))) ws"
proof -
  let ?g = "\<lambda>w. (w_name w, map card_id (w_cards w))"
  let ?cs = "w_cards (ws ! wi)"
  have "map card_id (?cs[ci := (?cs ! ci)\<lparr>content := html\<rparr>]) = map card_id ?cs"
    using map_update_same[of card_id ?cs ci] by (simp add: map_update)
  then have "?g ((ws ! wi)\<lparr>w_cards := ?cs[ci := (?cs ! ci)\<lparr>content := html\<rparr>]\<rparr>) = ?g (ws ! wi)"
    by simp
  moreover have "(map ?g ws)[wi := ?g (ws ! wi)] = map ?g ws"
    by (rule map_update_same)
  ultimately show ?thesis
    unfolding set_card_content_def map_update by simp
qed

lemma set_card_content_others:
  "(w, c) \<noteq> (wi, ci) \<Longrightarrow>
   w_cards (set_card_content wi ci html ws ! w) ! c = w_cards (ws ! w) ! c"
  by (cases "wi < length ws"; cases "w = wi") (auto simp: set_card_content_def list_update_beyond)

lemma machineAction_cache:
  "dashboardCache (machineAction action location mid response st) = dashboardCache st"
proof -
  have "dashboardCache (case createOrUpdateMachineCard m location g st of
            (None, st1) \<Rightarrow> st1
          | (Some e, st1) \<Rightarrow> showDialog msg st1) = dashboardCache st" for m g msg
    using createOrUpdateMachineCard_cache[of m location g st]
    by (cases "createOrUpdateMachineCard m location g st") (auto simp: showDialog_def split: option.splits)
  then show ?thesis
    by (simp add: machineAction_def showDialog_def split: option.splits prod.splits)
qed

text \<open>
  Claim C5 as amended. \<^const>\<open>machineAction\<close> never writes \<^verbatim>\<open>dashboardCache\<close>: the record
  that a successful action returns goes into the card only. On failure (no response, or
  \<open>ok\<close> false) the state is the old one with one more error dialog. On success, for a user
  who is logged in and a returned record with the id of the card that was clicked, the
  content of that card is replaced in place from the returned record; the locations and
  the ids of their cards are in the same order as before, every other card is as it was,
  and no dialog is shown.
\<close>

theorem machineAction_effect:
  "dashboardCache (machineAction action location mid response st) = dashboardCache st \<and>
   (response = None \<or> (\<exists>d. response = Some d \<and> \<not> ok d) \<longrightarrow>
      machineAction action location mid response st =
        st\<lparr>dialogs := dialogs st @ [cross_mark @ '' '' @ action @ '' failed'']\<rparr>) \<and>
   (\<forall>m u wi ci.
      response = Some \<lparr>ok = True, res_machine = Some m\<rparr> \<and> m_id m = mid \<and>
      currentUser st = Some u \<and> getCard (dom_locations st) mid = Some (wi, ci) \<longrightarrow>
        dom_locations (machineAction action location mid response st) =
          set_card_content wi ci
            (cardHTML u (overlayName (renamedMachines st) mid (m_name m)) location m (next_node st))
            (dom_locations st) \<and>
        map (\<lambda>w. (w_name w, map card_id (w_cards w)))
            (dom_locations (machineAction action location mid response st)) =
          map (\<lambda>w. (w_name w, map card_id (w_cards w))) (dom_locations st) \<and>
        (\<forall>w c. (w, c) \<noteq> (wi, ci) \<longrightarrow>
           w_cards (dom_locations (machineAction action location mid response st) ! w) ! c =
           w_cards (dom_locations st ! w) ! c) \<and>
        dialogs (machineAction action location mid response st) = dialogs st)"
proof -
  have failure: "machineAction action location mid response st =
        st\<lparr>dialogs := dialogs st @ [cross_mark @ '' '' @ action @ '' failed'']\<rparr>"
    if "response = None \<or> (\<exists>d. response = Some d \<and> \<not> ok d)"
    using that by (auto simp: machineAction_def showDialog_def)
  have success: "dom_locations (machineAction action location mid response st) =
          set_card_content wi ci
            (cardHTML u (overlayName (renamedMachines st) mid (m_name m)) location m (next_node st))
            (dom_locations st) \<and>
        map (\<lambda>w. (w_name w, map card_id (w_cards w)))
            (dom_locations (machineAction action location mid response st)) =
          map (\<lambda>w. (w_name w, map card_id (w_cards w))) (dom_locations st) \<and>
        (\<forall>w c. (w, c) \<noteq> (wi, ci) \<longrightarrow>
           w_cards (dom_locations (machineAction action location mid response st) ! w) ! c =
           w_cards (dom_locations st ! w) ! c) \<and>
        dialogs (machineAction action location mid response st) = dialogs st"
    if a: "response = Some \<lparr>ok = True, res_machine = Some m\<rparr> \<and> m_id m = mid \<and>
      currentUser st = Some u \<and> getCard (dom_locations st) mid = Some (wi, ci)"
    for m u wi ci
  proof -
    from a have card: "getCard (dom_locations st) (m_id m) = Some (wi, ci)"
      and u: "currentUser st = Some u" and mid: "m_id m = mid"
      and resp: "response = Some \<lparr>ok = True, res_machine = Some m\<rparr>"
      by auto
    note ex = createOrUpdateMachineCard_existing[OF u card, of location wi]
    from ex have run: "machineAction action location mid response st =
        snd (createOrUpdateMachineCard m location wi st)"
      using a by (cases "createOrUpdateMachineCard m location wi st") (simp add: machineAction_def resp)
    from ex have dom: "dom_locations (machineAction action location mid response st) =
          set_card_content wi ci
            (cardHTML u (overlayName (renamedMachines st) mid (m_name m)) location m (next_node st))
            (dom_locations st)"
      unfolding run mid by simp
    have ids: "map (\<lambda>w. (w_name w, map card_id (w_cards w)))
            (dom_locations (machineAction action location mid response st)) =
          map (\<lambda>w. (w_name w, map card_id (w_cards w))) (dom_locations st)"
      unfolding dom by (rule set_card_content_ids)
    have others: "\<forall>w c. (w, c) \<noteq> (wi, ci) \<longrightarrow>
           w_cards (dom_locations (machineAction action location mid response st) ! w) ! c =
           w_cards (dom_locations st ! w) ! c"
      unfolding dom using set_card_content_others by blast
    from ex have dlg: "dialogs (machineAction action location mid response st) = dialogs st"
      unfolding run by simp
    from dom ids others dlg show ?thesis by blast
  qed
  from machineAction_cache[of action location mid response st] failure success
  show ?thesis by blast
qed

text \<open>
  Claim C5 as stated fails: the operator pauses the running machine \<open>M1\<close> and the backend
  answers \<open>ok\<close> with the record of \<open>M1\<close> in status \<open>paused\<close>. The card shows \<open>PAUSED\<close>, but
  the cached snapshot still holds the old record of \<open>M1\<close>, not the returned one.
\<close>

theorem machineAction_leaves_cache_stale:
  "getCard (dom_locations (loaded operator_modan snapshot_modan)) ''M1'' = Some (0, 0) \<and>
   locations (dashboardCache (machineAction ''pause'' ''Modan'' ''M1''
       (Some \<lparr>ok = True, res_machine = Some (machine_A1\<lparr>status := ''paused''\<rparr>)\<rparr>)
       (loaded operator_modan snapshot_modan))) = Some snapshot_modan \<and>
   machines (snapshot_modan ! 0) ! 0 = machine_A1 \<and>
   machine_A1 \<noteq> machine_A1\<lparr>status := ''paused''\<rparr> \<and>
   c_status (content (w_cards (dom_locations (machineAction ''pause'' ''Modan'' ''M1''
       (Some \<lparr>ok = True, res_machine = Some (machine_A1\<lparr>status := ''paused''\<rparr>)\<rparr>)
       (loaded operator_modan snapshot_modan)) ! 0) ! 0)) = ''PAUSED''"
  by (intro conjI; code_simp)

text \<open>The same pause on the example page, a refused stop and a stop that got no answer.\<close>

theorem machineAction_effect_witness:
  "currentUser (loaded operator_modan snapshot_modan) = Some operator_modan \<and>
   getCard (dom_locations (loaded operator_modan snapshot_modan)) ''M1'' = Some (0, 0) \<and>
   m_id (machine_A1\<lparr>status := ''paused''\<rparr>) = ''M1'' \<and>
   dom_locations (machineAction ''pause'' ''Modan'' ''M1''
       (Some \<lparr>ok = True, res_machine = Some (machine_A1\<lparr>status := ''paused''\<rparr>)\<rparr>)
       (loaded operator_modan snapshot_modan)) =
     set_card_content 0 0
       (cardHTML operator_modan ''A1'' ''Modan'' (machine_A1\<lparr>status := ''paused''\<rparr>) 0)
       (dom_locations (loaded operator_modan snapshot_modan)) \<and>
   \<not> ok \<lparr>ok = False, res_machine = None\<rparr> \<and>
   machineAction ''stop'' ''Modan'' ''M1'' (Some \<lparr>ok = False, res_machine = None\<rparr>)
       (loaded operator_modan snapshot_modan) =
     (loaded operator_modan snapshot_modan)
       \<lparr>dialogs := dialogs (loaded operator_modan snapshot_modan) @ [cross_mark @ '' stop failed'']\<rparr> \<and>
   machineAction ''stop'' ''Modan'' ''M1'' None (loaded operator_modan snapshot_modan) =
     (loaded operator_modan snapshot_modan)
       \<lparr>dialogs := dialogs (loaded operator_modan snapshot_modan) @ [cross_mark @ '' stop failed'']\<rparr>"
proof -
  let ?L = "loaded operator_modan snapshot_modan"
  let ?m = "machine_A1\<lparr>status := ''paused''\<rparr>"
  have u: "currentUser ?L = Some operator_modan" by code_simp
  have c: "getCard (dom_locations ?L) ''M1'' = Some (0, 0)" by code_simp
  have i: "m_id ?m = ''M1''" by code_simp
  have n: "next_node ?L = 0" by code_simp
  have o: "overlayName (renamedMachines ?L) ''M1'' (m_name ?m) = ''A1''" by code_simp
  note success = machineAction_effect[of "''pause''" "''Modan''" "''M1''"
      "Some \<lparr>ok = True, res_machine = Some ?m\<rparr>" ?L,
      THEN conjunct2, THEN conjunct2, rule_format, of ?m operator_modan 0 0]
  have s: "dom_locations (machineAction ''pause'' ''Modan'' ''M1''
       (Some \<lparr>ok = True, res_machine = Some ?m\<rparr>) ?L) =
     set_card_content 0 0 (cardHTML operator_modan ''A1'' ''Modan'' ?m 0) (dom_locations ?L)"
    using success[OF conjI[OF refl conjI[OF i conjI[OF u c]]], THEN conjunct1]
    unfolding n o .
  have f1: "machineAction ''stop'' ''Modan'' ''M1'' (Some \<lparr>ok = False, res_machine = None\<rparr>) ?L =
     ?L\<lparr>dialogs := dialogs ?L @ [cross_mark @ '' stop failed'']\<rparr>"
    by (rule machineAction_effect[of "''stop''" "''Modan''" "''M1''"
          "Some \<lparr>ok = False, res_machine = None\<rparr>" ?L,
          THEN conjunct2, THEN conjunct1, rule_format, simplified]) 
  have f2: "machineAction ''stop'' ''Modan'' ''M1'' None ?L =
     ?L\<lparr>dialogs := dialogs ?L @ [cross_mark @ '' stop failed'']\<rparr>"
    by (rule machineAction_effect[of "''stop''" "''Modan''" "''M1''" None ?L,
          THEN conjunct2, THEN conjunct1, rule_format, simplified])
  have nk: "\<not> ok \<lparr>ok = False, res_machine = None\<rparr>" by simp
  from u c i s nk f1 f2 show ?thesis by blast
qed

section \<open>The rename overlay across snapshots\<close>

lemma wrap_cards_subset: "i < length ws \<Longrightarrow> set (w_cards (ws ! i)) \<subseteq> set (all_cards ws)"
  unfolding all_cards_def using nth_mem by fastforce

lemma all_cards_set_card_content:
  assumes "c \<in> set (all_cards (set_card_content wi ci html ws))"
  shows "c \<in> set (all_cards ws) \<or>
         (wi < length ws \<and> ci < length (w_cards (ws ! wi)) \<and>
          c = (w_cards (ws ! wi) ! ci)\<lparr>content := html\<rparr>)"
proof (cases "wi < length ws \<and> ci < length (w_cards (ws ! wi))")
  case False
  then have "set_card_content wi ci html ws = ws"
    by (auto simp: set_card_content_def list_update_beyond list_update_same_conv)
  with assms show ?thesis by simp
next
  case True
  let ?cs = "w_cards (ws ! wi)"
  let ?c' = "(?cs ! ci)\<lparr>content := html\<rparr>"
  let ?w' = "(ws ! wi)\<lparr>w_cards := ?cs[ci := ?c']\<rparr>"
  from assms obtain w where w: "w \<in> set (ws[wi := ?w'])" and c: "c \<in> set (w_cards w)"
    by (auto simp: all_cards_def set_card_content_def)
  from w have "w = ?w' \<or> w \<in> set ws"
    using set_update_subset_insert[of ws wi ?w'] by auto
  then show ?thesis
  proof
    assume "w = ?w'"
    with c have "c \<in> set (?cs[ci := ?c'])" by simp
    then have "c = ?c' \<or> c \<in> set ?cs"
      using set_update_subset_insert[of ?cs ci ?c'] by auto
    moreover from True have "set ?cs \<subseteq> set (all_cards ws)"
      by (simp add: wrap_cards_subset)
    ultimately show ?thesis using True by auto
  next
    assume "w \<in> set ws"
    with c show ?thesis by (auto simp: all_cards_def)
  qed
qed

lemma all_cards_append_card:
  assumes "c \<in> set (all_cards (append_card g new ws))"
  shows "c \<in> set (all_cards ws) \<or> c = new"
proof (cases "g < length ws")
  case False
  then have "append_card g new ws = ws" by (simp add: append_card_def list_update_beyond)
  with assms show ?thesis by simp
next
  case True
  let ?w' = "(ws ! g)\<lparr>w_cards := w_cards (ws ! g) @ [new]\<rparr>"
  from assms obtain w where w: "w \<in> set (ws[g := ?w'])" and c: "c \<in> set (w_cards w)"
    by (auto simp: all_cards_def append_card_def)
  from w have "w = ?w' \<or> w \<in> set ws"
    using set_update_subset_insert[of ws g ?w'] by auto
  then show ?thesis
  proof
    assume "w = ?w'"
    with c have "c = new \<or> c \<in> set (w_cards (ws ! g))" by auto
    moreover from True have "set (w_cards (ws ! g)) \<subseteq> set (all_cards ws)"
      by (simp add: wrap_cards_subset)
    ultimately show ?thesis by auto
  next
    assume "w \<in> set ws"
    with c show ?thesis by (auto simp: all_cards_def)
  qed
qed

lemma overlay_shown_iff:
  "overlay_shown M N ws \<longleftrightarrow> (\<forall>c\<in>set (all_cards ws). card_id c = M \<longrightarrow> c_name (content c) = N)"
  by (simp add: overlay_shown_def list_all_iff)

lemma createOrUpdateMachineCard_keeps:
  "renamedMachines (snd (createOrUpdateMachineCard m loc g st)) = renamedMachines st \<and>
   currentUser (snd (createOrUpdateMachineCard m loc g st)) = currentUser st \<and>
   suppressNextWSRender (snd (createOrUpdateMachineCard m loc g st)) = suppressNextWSRender st \<and>
   filter_location (snd (createOrUpdateMachineCard m loc g st)) = filter_location st \<and>
   filter_status (snd (createOrUpdateMachineCard m loc g st)) = filter_status st \<and>
   search_machine (snd (createOrUpdateMachineCard m loc g st)) = search_machine st"
  by (simp add: createOrUpdateMachineCard_def setupETACountdown_def clearInterval_def Let_def
      split: option.splits prod.splits)

lemma createOrUpdateMachineCard_no_throw:
  "currentUser st = Some u \<Longrightarrow> fst (createOrUpdateMachineCard m loc g st) = None"
  by (simp add: createOrUpdateMachineCard_def Let_def)

lemma createOrUpdateMachineCard_overlay:
  assumes ov: "renamedMachines st M = Some N" and ne: "N \<noteq> []"
    and ok: "overlay_shown M N (dom_locations st)"
  shows "overlay_shown M N (dom_locations (snd (createOrUpdateMachineCard m loc g st)))"
proof (cases "currentUser st")
  case None
  with ok show ?thesis by (simp add: createOrUpdateMachineCard_def Let_def)
next
  case (Some u)
  let ?html = "cardHTML u (overlayName (renamedMachines st) (m_id m) (m_name m)) loc m (next_node st)"
  have name: "m_id m = M \<Longrightarrow> c_name ?html = N"
    using ov ne by (simp add: cardHTML_def overlayName_def)
  show ?thesis
  proof (cases "getCard (dom_locations st) (m_id m)")
    case None
    let ?new = "\<lparr>card_id = m_id m, card_class = ''machine status-'' @ status m, content = ?html\<rparr>"
    from Some None have dom: "dom_locations (snd (createOrUpdateMachineCard m loc g st)) =
        append_card g ?new (dom_locations st)"
      by (simp add: createOrUpdateMachineCard_def Let_def setupETACountdown_frame split: option.splits)
    show ?thesis unfolding dom overlay_shown_iff
    proof (intro ballI impI)
      fix c assume "c \<in> set (all_cards (append_card g ?new (dom_locations st)))" and "card_id c = M"
      with all_cards_append_card[of c g ?new "dom_locations st"] ok name
      show "c_name (content c) = N" by (auto simp: overlay_shown_iff)
    qed
  next
    case (Some pos)
    obtain wi ci where pos: "pos = (wi, ci)" by (cases pos)
    from Some pos have card: "getCard (dom_locations st) (m_id m) = Some (wi, ci)" by simp
    from createOrUpdateMachineCard_existing[OF \<open>currentUser st = Some u\<close> card, of loc g]
    have dom: "dom_locations (snd (createOrUpdateMachineCard m loc g st)) =
        set_card_content wi ci ?html (dom_locations st)" by simp
    from getCard_Some[OF card]
    have cid: "card_id (w_cards (dom_locations st ! wi) ! ci) = m_id m" by simp
    show ?thesis unfolding dom overlay_shown_iff
    proof (intro ballI impI)
      fix c assume "c \<in> set (all_cards (set_card_content wi ci ?html (dom_locations st)))"
        and "card_id c = M"
      with all_cards_set_card_content[of c wi ci ?html "dom_locations st"] ok name cid
      show "c_name (content c) = N" by (auto simp: overlay_shown_iff)
    qed
  qed
qed

lemma forEach_invariant:
  assumes step: "\<And>x st. I st \<Longrightarrow> I (snd (f x st)) \<and> fst (f x st) = None"
    and start: "I st"
  shows "I (snd (forEach f xs st)) \<and> fst (forEach f xs st) = None"
  using start
proof (induction xs arbitrary: st)
  case Nil
  then show ?case by simp
next
  case (Cons x xs)
  from step[OF Cons.prems, of x] obtain st1 where r: "f x st = (None, st1)" and i: "I st1"
    by (cases "f x st") auto
  from Cons.IH[OF i] r show ?case by simp
qed

lemma all_cards_snoc_empty: "all_cards (ws @ [\<lparr>w_name = l, w_cards = []\<rparr>]) = all_cards ws"
  by (simp add: all_cards_def)

lemma renderLocation_overlay:
  assumes ses: "overlay_session M N st" and ne: "N \<noteq> []"
    and ok: "overlay_shown M N (dom_locations st)"
  shows "(overlay_session M N (snd (renderLocation l ms st)) \<and>
          overlay_shown M N (dom_locations (snd (renderLocation l ms st))) \<and>
          dashboardCache (snd (renderLocation l ms st)) = dashboardCache st) \<and>
         fst (renderLocation l ms st) = None"
proof -
  let ?I = "\<lambda>s. overlay_session M N s \<and> overlay_shown M N (dom_locations s) \<and>
                 dashboardCache s = dashboardCache st"
  let ?st1 = "st\<lparr>dom_locations := dom_locations st @ [\<lparr>w_name = l, w_cards = []\<rparr>]\<rparr>"
  have start: "?I ?st1"
    using ses ok by (simp add: overlay_session_def overlay_shown_def all_cards_snoc_empty)
  have step: "?I (snd (createOrUpdateMachineCard m l g s)) \<and>
              fst (createOrUpdateMachineCard m l g s) = None" if "?I s" for m g s
  proof -
    from that obtain u where u: "currentUser s = Some u" by (auto simp: overlay_session_def)
    from that have ov: "renamedMachines s M = Some N" by (simp add: overlay_session_def)
    from that createOrUpdateMachineCard_keeps[of m l g s]
    have "overlay_session M N (snd (createOrUpdateMachineCard m l g s))"
      by (simp add: overlay_session_def)
    moreover from that have "overlay_shown M N (dom_locations (snd (createOrUpdateMachineCard m l g s)))"
      by (intro createOrUpdateMachineCard_overlay[OF ov ne]) simp
    moreover from that have "dashboardCache (snd (createOrUpdateMachineCard m l g s)) = dashboardCache st"
      by (simp add: createOrUpdateMachineCard_cache)
    ultimately show ?thesis using createOrUpdateMachineCard_no_throw[OF u] by simp
  qed
  have "?I (snd (forEach (\<lambda>m. createOrUpdateMachineCard m l (length (dom_locations st))) ms ?st1)) \<and>
        fst (forEach (\<lambda>m. createOrUpdateMachineCard m l (length (dom_locations st))) ms ?st1) = None"
    by (rule forEach_invariant[where I = ?I, OF step start])
  then show ?thesis by (simp add: renderLocation_def Let_def)
qed

lemma renderDashboard_overlay:
  assumes ses: "overlay_session M N st" and ne: "N \<noteq> []"
  shows "(overlay_session M N (snd (renderDashboard d st)) \<and>
          overlay_shown M N (dom_locations (snd (renderDashboard d st))) \<and>
          dashboardCache (snd (renderDashboard d st)) = dashboardCache st) \<and>
         fst (renderDashboard d st) = None"
proof -
  from ses obtain u where u: "currentUser st = Some u" by (auto simp: overlay_session_def)
  let ?I = "\<lambda>s. overlay_session M N s \<and> overlay_shown M N (dom_locations s) \<and>
                 dashboardCache s = dashboardCache st"
  let ?st1 = "st\<lparr>dom_locations := []\<rparr>"
  have start: "?I ?st1"
    using ses by (simp add: overlay_session_def overlay_shown_def all_cards_def)
  show ?thesis
  proof (cases d)
    case None
    with u start show ?thesis by (simp add: renderDashboard_def)
  next
    case (Some locs)
    let ?g = "\<lambda>loc. renderLocation (l_name loc)
                (filterMachines (selectValue (filter_status st)) (searchValue (search_machine st))
                   (machines loc))"
    have step: "?I (snd (?g loc s)) \<and> fst (?g loc s) = None" if "?I s" for loc s
      using renderLocation_overlay[of M N s "l_name loc"] that ne by simp
    define xs where "xs =
        (let visible = (if u_location u = ''all'' then locs
                        else filter (\<lambda>l. l_name l = u_location u) locs)
         in if selectValue (filter_location st) \<noteq> ''all''
            then filter (\<lambda>l. l_name l = selectValue (filter_location st)) visible
            else visible)"
    have eq: "renderDashboard d st = forEach ?g xs ?st1"
      using u Some by (simp add: renderDashboard_def Let_def xs_def)
    show ?thesis unfolding eq
      by (rule forEach_invariant[where I = ?I and f = ?g, OF step start])
  qed
qed

lemma createAlert_keeps:
  "renamedMachines (createAlert msg lv st) = renamedMachines st \<and>
   currentUser (createAlert msg lv st) = currentUser st \<and>
   suppressNextWSRender (createAlert msg lv st) = suppressNextWSRender st \<and>
   dom_locations (createAlert msg lv st) = dom_locations st \<and>
   dashboardCache (createAlert msg lv st) = dashboardCache st"
  by (simp add: createAlert_def split: option.splits)

lemma createAlert_session: "overlay_session M N (createAlert msg lv st) = overlay_session M N st"
  by (simp add: overlay_session_def createAlert_keeps)

lemma handleNewJob_loop_session:
  assumes "overlay_session M N st" and "locations (dashboardCache st) \<noteq> None"
  shows "overlay_session M N (snd (handleNewJob_loop ev locs i st)) \<and>
         fst (handleNewJob_loop ev locs i st) = None \<and>
         locations (dashboardCache (snd (handleNewJob_loop ev locs i st))) \<noteq> None"
  using assms
proof (induction locs arbitrary: i)
  case Nil
  then show ?case by simp
next
  case (Cons loc rest)
  show ?case
  proof (cases "find_index (\<lambda>m. m_id m = machine_id ev) (machines loc)")
    case None
    with Cons show ?thesis by simp
  next
    case (Some k)
    let ?machine = "assignJob ev (machines loc ! k)"
    let ?st1 = "st\<lparr>dashboardCache := (dashboardCache st)
                   \<lparr>locations := map_option (set_machine i k ?machine) (locations (dashboardCache st))\<rparr>\<rparr>"
    from Cons.prems have s1: "overlay_session M N ?st1" and c1: "locations (dashboardCache ?st1) \<noteq> None"
      by (auto simp: overlay_session_def)
    from s1 obtain u where u: "currentUser ?st1 = Some u" by (auto simp: overlay_session_def)
    have card: "overlay_session M N (snd (createOrUpdateMachineCard ?machine l g ?st1)) \<and>
          fst (createOrUpdateMachineCard ?machine l g ?st1) = None \<and>
          locations (dashboardCache (snd (createOrUpdateMachineCard ?machine l g ?st1))) \<noteq> None" for l g
      using s1 c1 createOrUpdateMachineCard_keeps[of ?machine l g ?st1]
        createOrUpdateMachineCard_no_throw[OF u, of ?machine l g]
        createOrUpdateMachineCard_cache[of ?machine l g ?st1]
      by (simp add: overlay_session_def)
    show ?thesis
    proof (cases "getCard (dom_locations ?st1) (machine_id ev)")
      case None
      with Some s1 c1 show ?thesis by (simp add: Let_def)
    next
      case (Some pos)
      obtain g ci where "pos = (g, ci)" by (cases pos)
      with Some \<open>find_index _ _ = Some k\<close> card[of "l_name loc" g] show ?thesis
        by (simp add: Let_def)
    qed
  qed
qed

lemma handleNewJob_session:
  assumes "overlay_session M N st" and "locations (dashboardCache st) \<noteq> None"
  shows "overlay_session M N (snd (handleNewJob ev st)) \<and> fst (handleNewJob ev st) = None \<and>
         locations (dashboardCache (snd (handleNewJob ev st))) \<noteq> None"
proof -
  from assms obtain locs where locs: "locations (dashboardCache st) = Some locs" by auto
  from handleNewJob_loop_session[OF assms, of ev locs 0]
  obtain st1 where r: "handleNewJob_loop ev locs 0 st = (None, st1)"
    and s: "overlay_session M N st1" and c: "locations (dashboardCache st1) \<noteq> None"
    by (cases "handleNewJob_loop ev locs 0 st") auto
  from locs r s c show ?thesis
    by (simp add: handleNewJob_def createAlert_session createAlert_keeps)
qed

lemma alertFor_keeps:
  "renamedMachines (alertFor m st) = renamedMachines st \<and>
   currentUser (alertFor m st) = currentUser st \<and>
   suppressNextWSRender (alertFor m st) = suppressNextWSRender st \<and>
   dom_locations (alertFor m st) = dom_locations st"
  by (simp add: alertFor_def createAlert_keeps Let_def split: option.splits)

lemma fold_alertFor_keeps:
  "renamedMachines (fold alertFor ms st) = renamedMachines st \<and>
   currentUser (fold alertFor ms st) = currentUser st \<and>
   suppressNextWSRender (fold alertFor ms st) = suppressNextWSRender st \<and>
   dom_locations (fold alertFor ms st) = dom_locations st"
  by (induction ms arbitrary: st) (simp_all add: alertFor_keeps)

lemma fold_locations_alertFor_keeps:
  "renamedMachines (fold (\<lambda>loc. fold alertFor (machines loc)) locs st) = renamedMachines st \<and>
   currentUser (fold (\<lambda>loc. fold alertFor (machines loc)) locs st) = currentUser st \<and>
   suppressNextWSRender (fold (\<lambda>loc. fold alertFor (machines loc)) locs st) = suppressNextWSRender st \<and>
   dom_locations (fold (\<lambda>loc. fold alertFor (machines loc)) locs st) = dom_locations st"
  by (induction locs arbitrary: st) (simp_all add: fold_alertFor_keeps)

lemma handleAlerts_keeps:
  assumes "locations data \<noteq> None"
  shows "fst (handleAlerts data st) = None \<and>
         renamedMachines (snd (handleAlerts data st)) = renamedMachines st \<and>
         currentUser (snd (handleAlerts data st)) = currentUser st \<and>
         suppressNextWSRender (snd (handleAlerts data st)) = suppressNextWSRender st \<and>
         dom_locations (snd (handleAlerts data st)) = dom_locations st"
  using assms
  by (auto simp: handleAlerts_def Let_def fold_locations_alertFor_keeps split: option.splits)

lemma onmessage_overlay:
  assumes ses: "overlay_session M N st" and ne: "N \<noteq> []" and snap: "locations data \<noteq> None"
  shows "overlay_session M N (onmessage (Some data) st) \<and>
         overlay_shown M N (dom_locations (onmessage (Some data) st))"
proof -
  let ?st1 = "st\<lparr>dashboardCache := data\<rparr>"
  from ses have s1: "overlay_session M N ?st1" by (simp add: overlay_session_def)
  from snap have c1: "locations (dashboardCache ?st1) \<noteq> None" by simp
  define r1 where "r1 = (case new_job data of
              None \<Rightarrow> (None, ?st1) | Some j \<Rightarrow> handleNewJob j ?st1)"
  have "overlay_session M N (snd r1) \<and> fst r1 = None \<and> locations (dashboardCache (snd r1)) \<noteq> None"
    unfolding r1_def using s1 c1 handleNewJob_session[OF s1 c1]
    by (cases "new_job data") auto
  then obtain st2 locs where r1: "r1 = (None, st2)" and s2: "overlay_session M N st2"
    and c2: "locations (dashboardCache st2) = Some locs"
    by (cases r1) auto
  from renderDashboard_overlay[OF s2 ne, of "Some locs"]
  obtain st3 where r3: "renderDashboard (Some locs) st2 = (None, st3)"
    and s3: "overlay_session M N st3" and o3: "overlay_shown M N (dom_locations st3)"
    and c3: "dashboardCache st3 = dashboardCache st2"
    by (cases "renderDashboard (Some locs) st2") auto
  from c2 c3 have "locations (dashboardCache st3) \<noteq> None" by simp
  from handleAlerts_keeps[OF this, of st3]
  obtain st4 where r4: "handleAlerts (dashboardCache st3) st3 = (None, st4)"
    and k4: "renamedMachines st4 = renamedMachines st3" "currentUser st4 = currentUser st3"
      "suppressNextWSRender st4 = suppressNextWSRender st3" "dom_locations st4 = dom_locations st3"
    by (cases "handleAlerts (dashboardCache st3) st3") auto
  from r1 c2 r3 r4 have body: "onmessage_body ?st1 = (None, st4)"
    by (simp add: onmessage_body_def r1_def[symmetric])
  from ses have "\<not> suppressNextWSRender ?st1" by (simp add: overlay_session_def)
  with body have "onmessage (Some data) st = st4" by (simp add: onmessage_def Let_def)
  with s3 o3 k4 show ?thesis by (simp add: overlay_session_def)
qed

lemma replaceSnapshot_overlay:
  assumes ses: "overlay_session M N st" and ne: "N \<noteq> []"
  shows "overlay_session M N (replaceSnapshot locs st) \<and>
         overlay_shown M N (dom_locations (replaceSnapshot locs st))"
proof -
  from ses have "overlay_session M N (st\<lparr>dashboardCache := \<lparr>locations = Some locs, new_job = None\<rparr>\<rparr>)"
    by (simp add: overlay_session_def)
  from renderDashboard_overlay[OF this ne, of "Some locs"] show ?thesis
    by (simp add: replaceSnapshot_def)
qed

lemma apply_snapshot_overlay:
  assumes "overlay_session M N st" and "N \<noteq> []" and "carries_snapshot e"
  shows "overlay_session M N (apply_snapshot e st) \<and>
         overlay_shown M N (dom_locations (apply_snapshot e st))"
  using assms by (cases e) (simp_all add: replaceSnapshot_overlay onmessage_overlay)

lemma fold_apply_snapshot_overlay:
  assumes "overlay_session M N st" and "N \<noteq> []" and "\<forall>e\<in>set evs. carries_snapshot e" and "evs \<noteq> []"
  shows "overlay_session M N (fold apply_snapshot evs st) \<and>
         overlay_shown M N (dom_locations (fold apply_snapshot evs st))"
  using assms
proof (induction evs arbitrary: st)
  case Nil
  then show ?case by simp
next
  case (Cons e evs)
  from Cons.prems have e: "carries_snapshot e" by simp
  note first = apply_snapshot_overlay[OF Cons.prems(1,2) e]
  show ?case
  proof (cases "evs = []")
    case True
    with first show ?thesis by simp
  next
    case False
    with Cons.IH[of "apply_snapshot e st"] first Cons.prems show ?thesis by simp
  qed
qed

text \<open>
  What a rename stores: when the answer of the prompt is not empty, its trimmed form is not
  the old name and the backend answers \<open>ok\<close>, the overlay of the machine is the trimmed
  answer.
\<close>

lemma editMachineName_sets_overlay:
  assumes "nn \<noteq> []" and "trim nn \<noteq> oldName" and "currentUser st \<noteq> None"
    and "\<not> suppressNextWSRender st"
  shows "overlay_session M (trim nn) (editMachineName loc M oldName (Some nn) (Some True) st)"
  using assms
  by (simp add: editMachineName_def overlay_session_def createAlert_keeps showDialog_def Let_def
      split: option.splits prod.splits)

text \<open>
  Claim C3 as amended. Machine \<open>M\<close> has the rename overlay \<open>N\<close>, which is not empty, and
  somebody is logged in. After any non-empty sequence of full snapshots, over HTTP or
  pushed, the overlay of \<open>M\<close> is still \<open>N\<close> and every card of \<open>M\<close> in the document is headed
  by \<open>N\<close>, whatever name the snapshots carry for \<open>M\<close>. (\<^verbatim>\<open>suppressNextWSRender\<close> is never
  set by the script, so its being false is no restriction on the sessions that occur.)
\<close>

theorem rename_overlay_survives_snapshots:
  assumes "renamedMachines st M = Some N" and "N \<noteq> []"
    and "currentUser st \<noteq> None" and "\<not> suppressNextWSRender st"
    and "\<forall>e\<in>set evs. carries_snapshot e" and "evs \<noteq> []"
  shows "renamedMachines (fold apply_snapshot evs st) M = Some N \<and>
         (\<forall>c\<in>set (all_cards (dom_locations (fold apply_snapshot evs st))).
            card_id c = M \<longrightarrow> c_name (content c) = N)"
proof -
  from assms(1,3,4) have ses: "overlay_session M N st" by (simp add: overlay_session_def)
  from fold_apply_snapshot_overlay[OF ses assms(2,5,6)]
  show ?thesis by (simp add: overlay_session_def overlay_shown_iff)
qed

text \<open>
  Renaming \<open>M1\<close> to \<open>Line A\<close> on the example page stores that overlay; then one HTTP and one
  pushed snapshot.
\<close>

theorem rename_overlay_survives_snapshots_witness:
  "renamedMachines (editMachineName ''Modan'' ''M1'' ''A1'' (Some ''Line A'') (Some True)
                      (loaded admin_all snapshot_modan)) ''M1'' = Some ''Line A'' \<and>
   ''Line A'' \<noteq> [] \<and>
   currentUser (editMachineName ''Modan'' ''M1'' ''A1'' (Some ''Line A'') (Some True)
                  (loaded admin_all snapshot_modan)) \<noteq> None \<and>
   \<not> suppressNextWSRender (editMachineName ''Modan'' ''M1'' ''A1'' (Some ''Line A'') (Some True)
                              (loaded admin_all snapshot_modan)) \<and>
   carries_snapshot (Http snapshot_modan) \<and>
   carries_snapshot (Push \<lparr>locations = Some snapshot_busy, new_job = None\<rparr>) \<and>
   card_id (hd (all_cards (dom_locations
        (fold apply_snapshot [Http snapshot_modan, Push \<lparr>locations = Some snapshot_busy, new_job = None\<rparr>]
           (editMachineName ''Modan'' ''M1'' ''A1'' (Some ''Line A'') (Some True)
              (loaded admin_all snapshot_modan)))))) = ''M1'' \<and>
   c_name (content (hd (all_cards (dom_locations
        (fold apply_snapshot [Http snapshot_modan, Push \<lparr>locations = Some snapshot_busy, new_job = None\<rparr>]
           (editMachineName ''Modan'' ''M1'' ''A1'' (Some ''Line A'') (Some True)
              (loaded admin_all snapshot_modan))))))) = ''Line A''"
proof -
  let ?R = "editMachineName ''Modan'' ''M1'' ''A1'' (Some ''Line A'') (Some True)
              (loaded admin_all snapshot_modan)"
  let ?evs = "[Http snapshot_modan, Push \<lparr>locations = Some snapshot_busy, new_job = None\<rparr>]"
  let ?cards = "all_cards (dom_locations (fold apply_snapshot ?evs ?R))"
  have h1: "renamedMachines ?R ''M1'' = Some ''Line A''" by code_simp
  have h2: "''Line A'' \<noteq> []" by simp
  have h3: "currentUser ?R \<noteq> None" by code_simp
  have h4: "\<not> suppressNextWSRender ?R" by code_simp
  have e1: "carries_snapshot (Http snapshot_modan)" by simp
  have e2: "carries_snapshot (Push \<lparr>locations = Some snapshot_busy, new_job = None\<rparr>)" by simp
  from e1 e2 have h5: "\<forall>e\<in>set ?evs. carries_snapshot e" by simp
  have h6: "?evs \<noteq> []" by simp
  have some: "?cards \<noteq> []" by code_simp
  have first: "card_id (hd ?cards) = ''M1''" by code_simp
  note inst = rename_overlay_survives_snapshots[OF h1 h2 h3 h4 h5 h6, THEN conjunct2]
  from some have "hd ?cards \<in> set ?cards" by (rule hd_in_set)
  with inst first have shown: "c_name (content (hd ?cards)) = ''Line A''" by blast
  from h1 h2 h3 h4 e1 e2 first shown show ?thesis by blast
qed

text \<open>
  Claim C3 as stated fails for the empty overlay. The prompt returns a single space: it is
  not empty, so the guard lets it pass, and its trimmed form, the empty string, becomes the
  overlay of \<open>M1\<close>. An empty overlay is falsy, so the next full snapshot renders \<open>M1\<close> under
  the name the snapshot carries, \<open>A1\<close>.
\<close>

theorem blank_rename_lost_on_refresh:
  "'' '' \<noteq> [] \<and> trim '' '' \<noteq> ''A1'' \<and>
   renamedMachines (editMachineName ''Modan'' ''M1'' ''A1'' (Some '' '') (Some True)
                      (loaded admin_all snapshot_modan)) ''M1'' = Some [] \<and>
   map (\<lambda>c. (card_id c, c_name (content c))) (all_cards (dom_locations
        (apply_snapshot (Http snapshot_modan)
           (editMachineName ''Modan'' ''M1'' ''A1'' (Some '' '') (Some True)
              (loaded admin_all snapshot_modan))))) = [(''M1'', ''A1''), (''M2'', ''B2'')]"
  by (intro conjI; code_simp)

text \<open>
  An answer of one no-break space (U+00A0) is trimmed to the empty string as well, and is
  lost on the next refresh in the same way.
\<close>

lemma no_break_space_rename_lost:
  "trim [CHR 0xC2, CHR 0xA0] = [] \<and>
   renamedMachines (editMachineName ''Modan'' ''M1'' ''A1'' (Some [CHR 0xC2, CHR 0xA0]) (Some True)
                      (loaded admin_all snapshot_modan)) ''M1'' = Some [] \<and>
   map (\<lambda>c. (card_id c, c_name (content c))) (all_cards (dom_locations
        (apply_snapshot (Http snapshot_modan)
           (editMachineName ''Modan'' ''M1'' ''A1'' (Some [CHR 0xC2, CHR 0xA0]) (Some True)
              (loaded admin_all snapshot_modan))))) = [(''M1'', ''A1''), (''M2'', ''B2'')]"
  by (intro conjI; code_simp)

section \<open>Filters of the render pass\<close>

text \<open>\<^const>\<open>includes_str\<close> is the substring test.\<close>

lemma includes_str_iff: "includes_str s sub \<longleftrightarrow> (\<exists>p q. s = p @ sub @ q)"
proof (induction s)
  case Nil
  then show ?case by auto
next
  case (Cons c cs)
  show ?case
  proof
    assume "includes_str (c # cs) sub"
    then consider "take (length sub) (c # cs) = sub" | "includes_str cs sub" by auto
    then show "\<exists>p q. c # cs = p @ sub @ q"
    proof cases
      case 1
      then have "c # cs = [] @ sub @ drop (length sub) (c # cs)"
        by (metis append_Nil append_take_drop_id)
      then show ?thesis by blast
    next
      case 2
      with Cons.IH obtain p q where "cs = p @ sub @ q" by auto
      then have "c # cs = (c # p) @ sub @ q" by simp
      then show ?thesis by blast
    qed
  next
    assume "\<exists>p q. c # cs = p @ sub @ q"
    then obtain p q where pq: "c # cs = p @ sub @ q" by auto
    show "includes_str (c # cs) sub"
    proof (cases p)
      case Nil
      with pq have "take (length sub) (c # cs) = sub" by simp
      then show ?thesis by simp
    next
      case (Cons x p')
      with pq have "cs = p' @ sub @ q" by simp
      with Cons.IH have "includes_str cs sub" by blast
      then show ?thesis by simp
    qed
  qed
qed

text \<open>
  The status filter and the search compose into one selection that keeps the order of the
  machines. The search text is matched against the name carried by the snapshot and the
  work order of the current job.
\<close>

lemma filterMachines_filter:
  "filterMachines statusFilter searchFilter ms =
     filter (\<lambda>m. (statusFilter = ''all'' \<or> status m = statusFilter) \<and>
                 (searchFilter = [] \<or> includes_str (toLowerCase (m_name m)) searchFilter \<or>
                  includes_str (toLowerCase (case job m of None \<Rightarrow> [] | Some j \<Rightarrow> work_order j))
                    searchFilter)) ms"
  by (induction ms) (auto simp: filterMachines_def Let_def)

text \<open>
  The two examples of the specification, on the filter and on the rendered page: status
  \<open>running\<close> leaves \<open>A1\<close>, search text \<open>b\<close> with status \<open>all\<close> leaves \<open>B2\<close>.
\<close>

lemma filter_examples:
  "map m_name (filterMachines ''running'' [] [machine_A1, machine_B2]) = [''A1''] \<and>
   map m_name (filterMachines ''all'' ''b'' [machine_A1, machine_B2]) = [''B2''] \<and>
   map (\<lambda>w. (w_name w, map (\<lambda>c. c_name (content c)) (w_cards w)))
     (dom_locations (replaceSnapshot snapshot_modan
        ((loaded operator_modan snapshot_modan)\<lparr>filter_status := Some ''running''\<rparr>))) =
     [(''Modan'', [''A1''])] \<and>
   map (\<lambda>w. (w_name w, map (\<lambda>c. c_name (content c)) (w_cards w)))
     (dom_locations (replaceSnapshot snapshot_modan
        ((loaded operator_modan snapshot_modan)\<lparr>search_machine := Some ''b''\<rparr>))) =
     [(''Modan'', [''B2''])]"
  by (intro conjI; code_simp)

text \<open>
  Claim C6, evaluated where it fails. An admin has renamed \<open>M1\<close> from \<open>A1\<close> to \<open>Line A\<close>,
  and the page shows \<open>Line A\<close> and \<open>B2\<close>. The search text \<open>line\<close> occurs in the display name
  \<open>Line A\<close>, yet the render pass shows no card at all; the search text \<open>a1\<close>, which the user
  no longer sees anywhere, brings up the card headed \<open>Line A\<close>.
\<close>

theorem search_ignores_rename_overlay:
  "renamedMachines (editMachineName ''Modan'' ''M1'' ''A1'' (Some ''Line A'') (Some True)
                      (loaded admin_all snapshot_modan)) ''M1'' = Some ''Line A'' \<and>
   map (\<lambda>w. (w_name w, map (\<lambda>c. c_name (content c)) (w_cards w)))
     (dom_locations (replaceSnapshot snapshot_modan
        (editMachineName ''Modan'' ''M1'' ''A1'' (Some ''Line A'') (Some True)
           (loaded admin_all snapshot_modan)))) =
     [(''Modan'', [''Line A'', ''B2''])] \<and>
   includes_str (toLowerCase ''Line A'') (searchValue (Some ''line'')) \<and>
   map (\<lambda>w. (w_name w, map (\<lambda>c. c_name (content c)) (w_cards w)))
     (dom_locations (replaceSnapshot snapshot_modan
        ((editMachineName ''Modan'' ''M1'' ''A1'' (Some ''Line A'') (Some True)
           (loaded admin_all snapshot_modan))\<lparr>search_machine := Some ''line''\<rparr>))) =
     [(''Modan'', [])] \<and>
   map (\<lambda>w. (w_name w, map (\<lambda>c. c_name (content c)) (w_cards w)))
     (dom_locations (replaceSnapshot snapshot_modan
        ((editMachineName ''Modan'' ''M1'' ''A1'' (Some ''Line A'') (Some True)
           (loaded admin_all snapshot_modan))\<lparr>search_machine := Some ''a1''\<rparr>))) =
     [(''Modan'', [''Line A''])]"
  by (intro conjI; code_simp)

section \<open>Progress display\<close>

lemma toFixed1_100: "toFixed1 100 = 100"
  by code_simp

lemma toFixed1_neg: "x < 0 \<Longrightarrow> toFixed1 x = - (of_int \<lfloor>10 * (- x) + 1 / 2\<rfloor> / 10)"
  by (simp only: toFixed1_def if_True)

lemma toFixed1_nonneg: "0 \<le> x \<Longrightarrow> toFixed1 x = of_int \<lfloor>10 * x + 1 / 2\<rfloor> / 10"
  by (simp only: toFixed1_def not_less[symmetric] if_False)

lemma round_tenth_nonneg:
  fixes z :: rat
  assumes "0 \<le> z"
  shows "0 \<le> (of_int \<lfloor>10 * z + 1 / 2\<rfloor> :: rat) / 10"
proof -
  from assms have "0 \<le> 10 * z + 1 / 2" by simp
  then have "0 \<le> \<lfloor>10 * z + 1 / 2\<rfloor>" by (simp only: zero_le_floor)
  then show ?thesis by simp
qed

lemma round_tenth_mono:
  fixes x y :: rat
  assumes "x \<le> y"
  shows "(of_int \<lfloor>10 * x + 1 / 2\<rfloor> :: rat) / 10 \<le> of_int \<lfloor>10 * y + 1 / 2\<rfloor> / 10"
proof -
  from assms have "10 * x + 1 / 2 \<le> 10 * y + 1 / 2" by simp
  then have "\<lfloor>10 * x + 1 / 2\<rfloor> \<le> \<lfloor>10 * y + 1 / 2\<rfloor>" by (rule floor_mono)
  then show ?thesis by (simp add: divide_right_mono)
qed

lemma toFixed1_mono: "x \<le> y \<Longrightarrow> toFixed1 x \<le> toFixed1 y"
proof -
  assume xy: "x \<le> y"
  consider "x < 0" "y < 0" | "x < 0" "0 \<le> y" | "0 \<le> x" "0 \<le> y" using xy by linarith
  then show ?thesis
  proof cases
    case 1
    from xy have "- y \<le> - x" by simp
    from round_tenth_mono[OF this] show ?thesis
      unfolding toFixed1_neg[OF 1(1)] toFixed1_neg[OF 1(2)] by linarith
  next
    case 2
    from 2(1) have "0 \<le> - x" by simp
    from round_tenth_nonneg[OF this] round_tenth_nonneg[OF 2(2)] show ?thesis
      unfolding toFixed1_neg[OF 2(1)] toFixed1_nonneg[OF 2(2)] by linarith
  next
    case 3
    from round_tenth_mono[OF xy] show ?thesis
      unfolding toFixed1_nonneg[OF 3(1)] toFixed1_nonneg[OF 3(2)] .
  qed
qed

lemma toFixed1_min: "min (toFixed1 p) 100 = toFixed1 (min p 100)"
proof (cases "p \<le> 100")
  case True
  from toFixed1_mono[OF True] have "toFixed1 p \<le> 100" by (simp only: toFixed1_100)
  with True show ?thesis by (simp only: min_absorb1)
next
  case False
  then have le: "100 \<le> p" by simp
  from toFixed1_mono[OF le] have "100 \<le> toFixed1 p" by (simp only: toFixed1_100)
  with le show ?thesis by (simp only: min_absorb2 toFixed1_100)
qed






text \<open>
  Read on the progress value of the snapshot itself, the colour bands start one twentieth
  early, because the comparison is made after the rounding.
\<close>

lemma round_tenth_ge:
  fixes z :: rat
  shows "of_int k / 10 \<le> (of_int \<lfloor>10 * z + 1 / 2\<rfloor> :: rat) / 10 \<longleftrightarrow> of_int k / 10 - 1 / 20 \<le> z"
proof -
  have "of_int k / 10 \<le> (of_int \<lfloor>10 * z + 1 / 2\<rfloor> :: rat) / 10 \<longleftrightarrow> k \<le> \<lfloor>10 * z + 1 / 2\<rfloor>"
    by simp
  also have "\<dots> \<longleftrightarrow> of_int k \<le> 10 * z + 1 / 2" by (rule le_floor_iff)
  also have "\<dots> \<longleftrightarrow> of_int k / 10 - 1 / 20 \<le> z" by (simp add: field_simps)
  finally show ?thesis .
qed

lemma toFixed1_ge_iff:
  assumes "0 < k"
  shows "of_int k / 10 \<le> toFixed1 x \<longleftrightarrow> of_int k / 10 - 1 / 20 \<le> x"
proof (cases "x < 0")
  case True
  from True have "0 \<le> - x" by simp
  from round_tenth_nonneg[OF this] have "toFixed1 x \<le> 0" unfolding toFixed1_neg[OF True] by simp
  moreover from assms have "(0::rat) < of_int k / 10" by simp
  moreover from assms have "(1::rat) \<le> of_int k" by (simp add: int_one_le_iff_zero_less flip: of_int_1_le_iff)
  then have "(0::rat) \<le> of_int k / 10 - 1 / 20" by simp
  ultimately show ?thesis using True by linarith
next
  case False
  then have "0 \<le> x" by simp
  show ?thesis unfolding toFixed1_nonneg[OF \<open>0 \<le> x\<close>] by (rule round_tenth_ge)
qed

lemma color_thresholds_on_raw_value:
  assumes "job machine = Some j" and "progress_percent j = Some p"
  shows "barColor (progressPercent machine) =
           (if p \<ge> 8995 / 100 then ''red'' else if p \<ge> 7495 / 100 then ''orange'' else ''green'')"
proof -
  from assms have pp: "progressPercent machine = toFixed1 (min p 100)"
    by (simp add: progressPercent_def toFixed1_min)
  have r: "90 \<le> toFixed1 (min p 100) \<longleftrightarrow> 8995 / 100 \<le> p"
    using toFixed1_ge_iff[of 900 "min p 100"] by (simp add: min_def)
  have o: "75 \<le> toFixed1 (min p 100) \<longleftrightarrow> 7495 / 100 \<le> p"
    using toFixed1_ge_iff[of 750 "min p 100"] by (simp add: min_def)
  show ?thesis unfolding pp barColor_def r o by simp
qed

end
